theory Spec2Isabelle
  imports Main "HOL-Library.AList" "HOL-Library.Char_ord" "HOL-Library.List_Lexorder"
begin

section \<open>The database engine: values, types and tables\<close>

text \<open>
  The workshop review tooling is a handful of SQL statements run on an embedded DuckDB
  database from \<^verbatim>\<open>notebooks/db_tools.ipynb\<close> (the same code is quoted in
  \<^verbatim>\<open>README.md\<close>). The statements are embedded as functions on an explicit
  database state; what the engine does with a statement (catalog lookup, column count,
  casts, constraint checks, all-or-nothing effect of one statement) is written out below.

  The column types are the three the schema declares, \<open>BIGINT\<close> (what a scanned
  \<^verbatim>\<open>int64\<close> dataframe column has) and the type of an untyped \<^verbatim>\<open>NULL\<close>.
  Floating-point and boolean dataframe columns are outside the model.
\<close>

datatype sqltype = INTEGER | BIGINT | VARCHAR | TIMESTAMP | SQLNULL

text \<open>A timestamp value is kept by its civil fields: year, month, day, hour, minute, second.\<close>

datatype cell =
    Null
  | IntV int
  | StrV string
  | TsV nat nat nat nat nat nat

datatype constraint =
    Not_null string
  | Unique "string list"
  | Primary_key "string list"
  | Foreign_key "string list" string "string list"

record table_def =
  tbl_name :: string
  tbl_columns :: "(string \<times> sqltype) list"
  tbl_constraints :: "constraint list"

record table =
  columns :: "(string \<times> sqltype) list"
  constraints :: "constraint list"
  rows :: "cell list list"

text \<open>The catalog, in creation order. A fresh database file holds no table.\<close>

type_synonym database = "(string \<times> table) list"

text \<open>What a \<^verbatim>\<open>SELECT\<close> yields, a scanned dataframe is, and a Parquet file holds.\<close>

record relation =
  rel_columns :: "(string \<times> sqltype) list"
  rel_rows :: "cell list list"

datatype error =
    Catalog_error
  | Binder_error
  | Conversion_error
  | Constraint_error
  | Unmodelled

subsection \<open>The schema\<close>

text \<open>
  \<^verbatim>\<open>tbl_schema\<close> of the notebook, one \<open>table_def\<close> per \<^verbatim>\<open>CREATE TABLE\<close>,
  in the order of the script. No column carries \<^verbatim>\<open>NOT NULL\<close>, \<^verbatim>\<open>UNIQUE\<close>,
  \<^verbatim>\<open>PRIMARY KEY\<close> or \<^verbatim>\<open>REFERENCES\<close>, and no statement has a table constraint.
\<close>

definition tbl_log :: table_def where
  "tbl_log = \<lparr>tbl_name = ''tbl_log'',
     tbl_columns = [(''reviewer_id'', INTEGER), (''document_id'', INTEGER), (''conflict'', VARCHAR)],
     tbl_constraints = []\<rparr>"

definition tbl_response :: table_def where
  "tbl_response = \<lparr>tbl_name = ''tbl_response'',
     tbl_columns = [(''reviewer_id'', INTEGER), (''reviewer_name'', VARCHAR),
       (''document_id'', INTEGER), (''alignment'', INTEGER), (''science'', INTEGER),
       (''benefits'', INTEGER), (''comments'', VARCHAR), (''screening_order'', INTEGER)],
     tbl_constraints = []\<rparr>"

definition tbl_reviewer :: table_def where
  "tbl_reviewer = \<lparr>tbl_name = ''tbl_reviewer'',
     tbl_columns = [(''reviewer_id'', INTEGER), (''reviewer_name'', VARCHAR)],
     tbl_constraints = []\<rparr>"

definition tbl_source :: table_def where
  "tbl_source = \<lparr>tbl_name = ''tbl_source'',
     tbl_columns = [(''document_id'', INTEGER), (''submission_timestamp'', TIMESTAMP),
       (''email'', VARCHAR), (''first_name'', VARCHAR), (''last_name'', VARCHAR),
       (''phone'', VARCHAR), (''institution'', VARCHAR), (''authors'', VARCHAR),
       (''title'', VARCHAR), (''abstract'', VARCHAR), (''biosketch'', VARCHAR),
       (''leverage_plan'', VARCHAR), (''student'', VARCHAR), (''early_career'', VARCHAR),
       (''registration_waiver'', VARCHAR), (''travel_award'', VARCHAR),
       (''poster_competition'', VARCHAR), (''breakout_sessions'', VARCHAR)],
     tbl_constraints = []\<rparr>"

definition tbl_schema :: "table_def list" where
  "tbl_schema = [tbl_log, tbl_response, tbl_reviewer, tbl_source]"

subsection \<open>CREATE TABLE and the build cell\<close>

text \<open>\<^verbatim>\<open>CREATE TABLE\<close> without \<^verbatim>\<open>IF NOT EXISTS\<close>: an existing name is a catalog error.\<close>

definition create_table :: "database \<Rightarrow> table_def \<Rightarrow> error + database" where
  "create_table d td =
     (if map_of d (tbl_name td) \<noteq> None then Inl Catalog_error
      else Inr (d @ [(tbl_name td,
             \<lparr>columns = tbl_columns td, constraints = tbl_constraints td, rows = []\<rparr>)]))"

text \<open>
  \<^verbatim>\<open>con.sql(tbl_schema)\<close>: the statements of the script run one after the other, each
  committed on its own; the first that fails raises and the ones before it stay.
\<close>

fun run_script :: "database \<Rightarrow> table_def list \<Rightarrow> database \<times> error option" where
  "run_script d [] = (d, None)"
| "run_script d (td # tds) =
     (case create_table d td of
        Inl e \<Rightarrow> (d, Some e)
      | Inr d' \<Rightarrow> run_script d' tds)"

definition build_database :: "database \<Rightarrow> database \<times> error option" where
  "build_database d = run_script d tbl_schema"

text \<open>\<^verbatim>\<open>SHOW TABLES\<close> lists the table names ordered by name.\<close>

definition show_tables :: "database \<Rightarrow> string list" where
  "show_tables d = sort (map fst d)"

subsection \<open>Casts\<close>

text \<open>
  An insert casts every value to the type of the column it lands in. Whether a cast
  between two types exists is settled when the statement is bound, before any row is read.
\<close>

fun cast_supported :: "sqltype \<Rightarrow> sqltype \<Rightarrow> bool" where
  "cast_supported SQLNULL _ = True"
| "cast_supported _ SQLNULL = False"
| "cast_supported _ VARCHAR = True"
| "cast_supported VARCHAR _ = True"
| "cast_supported TIMESTAMP TIMESTAMP = True"
| "cast_supported TIMESTAMP _ = False"
| "cast_supported _ TIMESTAMP = False"
| "cast_supported _ _ = True"

definition digit_val :: "char \<Rightarrow> nat option" where
  "digit_val c =
     map_of [(CHR ''0'', 0), (CHR ''1'', 1), (CHR ''2'', 2), (CHR ''3'', 3), (CHR ''4'', 4),
             (CHR ''5'', 5), (CHR ''6'', 6), (CHR ''7'', 7), (CHR ''8'', 8), (CHR ''9'', 9)] c"

fun digits_value :: "nat \<Rightarrow> string \<Rightarrow> nat option" where
  "digits_value acc [] = Some acc"
| "digits_value acc (c # cs) =
     (case digit_val c of None \<Rightarrow> None | Some k \<Rightarrow> digits_value (10 * acc + k) cs)"

definition number_value :: "string \<Rightarrow> nat option" where
  "number_value s = (if s = [] then None else digits_value 0 s)"

definition trim :: "string \<Rightarrow> string" where
  "trim s = rev (dropWhile (\<lambda>c. c = CHR '' '') (rev (dropWhile (\<lambda>c. c = CHR '' '') s)))"

text \<open>
  Text to integer: blanks around, an optional sign, decimal digits. The engine also reads
  a fraction, an exponent and other blank characters; those spellings are left out, so
  this function converts fewer strings than the engine does, never to another value.
  No theorem below concludes anything from a \<open>None\<close> of it, except for a string of
  letters.
\<close>

definition text_to_integer :: "string \<Rightarrow> int option" where
  "text_to_integer s =
     (case trim s of
        [] \<Rightarrow> None
      | c # cs \<Rightarrow>
          if c = CHR ''-'' then map_option (\<lambda>n. - int n) (number_value cs)
          else if c = CHR ''+'' then map_option int (number_value cs)
          else map_option int (number_value (c # cs)))"

fun nat_to_text :: "nat \<Rightarrow> string" where
  "nat_to_text n =
     (if n < 10 then [''0123456789'' ! n]
      else nat_to_text (n div 10) @ [''0123456789'' ! (n mod 10)])"

declare nat_to_text.simps [simp del]

definition integer_to_text :: "int \<Rightarrow> string" where
  "integer_to_text i = (if i < 0 then CHR ''-'' # nat_to_text (nat (- i)) else nat_to_text (nat i))"

definition leap_year :: "nat \<Rightarrow> bool" where
  "leap_year y \<longleftrightarrow> (y mod 4 = 0 \<and> y mod 100 \<noteq> 0) \<or> y mod 400 = 0"

definition days_in_month :: "nat \<Rightarrow> nat \<Rightarrow> nat" where
  "days_in_month y m =
     (if m = 2 then (if leap_year y then 29 else 28)
      else if m \<in> {4, 6, 9, 11} then 30 else 31)"

definition valid_timestamp :: "nat \<Rightarrow> nat \<Rightarrow> nat \<Rightarrow> nat \<Rightarrow> nat \<Rightarrow> nat \<Rightarrow> bool" where
  "valid_timestamp y m d h mi s \<longleftrightarrow>
     1 \<le> m \<and> m \<le> 12 \<and> 1 \<le> d \<and> d \<le> days_in_month y m \<and> h < 24 \<and> mi < 60 \<and> s < 60"

text \<open>
  Text to timestamp: the spelling \<^verbatim>\<open>YYYY-MM-DD hh:mm:ss\<close>, the fields in range. The
  engine reads other spellings as well (a date alone, fractions of a second, an offset);
  they are left out in the same way.
\<close>

definition text_to_timestamp :: "string \<Rightarrow> cell option" where
  "text_to_timestamp s0 =
     (let s = trim s0 in
      if length s = 19 \<and> s ! 4 = CHR ''-'' \<and> s ! 7 = CHR ''-'' \<and> s ! 10 = CHR '' ''
           \<and> s ! 13 = CHR '':'' \<and> s ! 16 = CHR '':''
      then
        (case (number_value (take 4 s), number_value (take 2 (drop 5 s)),
               number_value (take 2 (drop 8 s)), number_value (take 2 (drop 11 s)),
               number_value (take 2 (drop 14 s)), number_value (take 2 (drop 17 s))) of
           (Some y, Some m, Some d, Some h, Some mi, Some sec) \<Rightarrow>
             if valid_timestamp y m d h mi sec then Some (TsV y m d h mi sec) else None
         | _ \<Rightarrow> None)
      else None)"

definition pad :: "nat \<Rightarrow> nat \<Rightarrow> string" where
  "pad w n = replicate (w - length (nat_to_text n)) CHR ''0'' @ nat_to_text n"

definition timestamp_to_text :: "nat \<Rightarrow> nat \<Rightarrow> nat \<Rightarrow> nat \<Rightarrow> nat \<Rightarrow> nat \<Rightarrow> string" where
  "timestamp_to_text y m d h mi s =
     pad 4 y @ ''-'' @ pad 2 m @ ''-'' @ pad 2 d @ '' '' @ pad 2 h @ '':'' @ pad 2 mi @ '':'' @ pad 2 s"

definition in_int32 :: "int \<Rightarrow> bool" where
  "in_int32 i \<longleftrightarrow> - (2 ^ 31) \<le> i \<and> i < 2 ^ 31"

definition in_int64 :: "int \<Rightarrow> bool" where
  "in_int64 i \<longleftrightarrow> - (2 ^ 63) \<le> i \<and> i < 2 ^ 63"

definition ranged :: "sqltype \<Rightarrow> int \<Rightarrow> cell option" where
  "ranged ty i =
     (if (ty = INTEGER \<and> in_int32 i) \<or> (ty = BIGINT \<and> in_int64 i) then Some (IntV i) else None)"

text \<open>The cast of one value to a column type; \<open>None\<close> is the engine's conversion error.\<close>

fun cast_cell :: "sqltype \<Rightarrow> cell \<Rightarrow> cell option" where
  "cast_cell ty Null = Some Null"
| "cast_cell ty (IntV i) =
     (case ty of
        INTEGER \<Rightarrow> ranged INTEGER i
      | BIGINT \<Rightarrow> ranged BIGINT i
      | VARCHAR \<Rightarrow> Some (StrV (integer_to_text i))
      | _ \<Rightarrow> None)"
| "cast_cell ty (StrV s) =
     (case ty of
        INTEGER \<Rightarrow> (case text_to_integer s of None \<Rightarrow> None | Some i \<Rightarrow> ranged INTEGER i)
      | BIGINT \<Rightarrow> (case text_to_integer s of None \<Rightarrow> None | Some i \<Rightarrow> ranged BIGINT i)
      | VARCHAR \<Rightarrow> Some (StrV s)
      | TIMESTAMP \<Rightarrow> text_to_timestamp s
      | SQLNULL \<Rightarrow> None)"
| "cast_cell ty (TsV y m d h mi s) =
     (case ty of
        TIMESTAMP \<Rightarrow> Some (TsV y m d h mi s)
      | VARCHAR \<Rightarrow> Some (StrV (timestamp_to_text y m d h mi s))
      | _ \<Rightarrow> None)"

definition cast_row :: "sqltype list \<Rightarrow> cell list \<Rightarrow> cell list option" where
  "cast_row tys r = those (map2 cast_cell tys r)"

definition cast_rows :: "sqltype list \<Rightarrow> cell list list \<Rightarrow> cell list list option" where
  "cast_rows tys rs = those (map (cast_row tys) rs)"

subsection \<open>Constraints\<close>

text \<open>
  The checks the engine makes on every row it inserts: \<^verbatim>\<open>NOT NULL\<close>, uniqueness of a
  key (rows with a \<^verbatim>\<open>NULL\<close> in the key never collide), a primary key (unique and no
  \<^verbatim>\<open>NULL\<close>), and a foreign key (a key without \<^verbatim>\<open>NULL\<close> must occur in the
  referenced table).
\<close>

definition field :: "(string \<times> sqltype) list \<Rightarrow> cell list \<Rightarrow> string \<Rightarrow> cell" where
  "field cols r c = (case map_of (zip (map fst cols) r) c of None \<Rightarrow> Null | Some v \<Rightarrow> v)"

definition key_of :: "(string \<times> sqltype) list \<Rightarrow> string list \<Rightarrow> cell list \<Rightarrow> cell list" where
  "key_of cols cs r = map (field cols r) cs"

definition key_present :: "table \<Rightarrow> string list \<Rightarrow> cell list \<Rightarrow> bool" where
  "key_present tb cs k = list_ex (\<lambda>r. key_of (columns tb) cs r = k) (rows tb)"

fun violates :: "database \<Rightarrow> table \<Rightarrow> cell list \<Rightarrow> constraint \<Rightarrow> bool" where
  "violates d tb r (Not_null c) = (field (columns tb) r c = Null)"
| "violates d tb r (Unique cs) =
     (let k = key_of (columns tb) cs r in Null \<notin> set k \<and> key_present tb cs k)"
| "violates d tb r (Primary_key cs) =
     (let k = key_of (columns tb) cs r in Null \<in> set k \<or> key_present tb cs k)"
| "violates d tb r (Foreign_key cs rt rcs) =
     (let k = key_of (columns tb) cs r in
      Null \<notin> set k \<and>
      (case map_of d rt of None \<Rightarrow> True | Some tb' \<Rightarrow> \<not> key_present tb' rcs k))"

text \<open>Rows are checked one by one, each against the table with the rows before it.\<close>

fun append_checked :: "database \<Rightarrow> table \<Rightarrow> cell list list \<Rightarrow> error + table" where
  "append_checked d tb [] = Inr tb"
| "append_checked d tb (r # rs) =
     (if list_ex (violates d tb r) (constraints tb) then Inl Constraint_error
      else append_checked d (tb\<lparr>rows := rows tb @ [r]\<rparr>) rs)"

subsection \<open>INSERT\<close>

text \<open>
  \<^verbatim>\<open>INSERT INTO t SELECT * FROM rel\<close>. No column list is given, so the columns of
  \<open>rel\<close> are matched with the columns of \<open>t\<close> by position: the counts must agree, the
  names of \<open>rel\<close> are never read. The statement is atomic: on an error the database is
  as before.
\<close>

definition insert_select :: "database \<Rightarrow> string \<Rightarrow> relation \<Rightarrow> error + database" where
  "insert_select d t rel =
     (case map_of d t of
        None \<Rightarrow> Inl Catalog_error
      | Some tb \<Rightarrow>
          if length (rel_columns rel) \<noteq> length (columns tb) then Inl Binder_error
          else if \<not> list_all2 (\<lambda>s c. cast_supported (snd s) (snd c)) (rel_columns rel) (columns tb)
            then Inl Conversion_error
          else (case cast_rows (map snd (columns tb)) (rel_rows rel) of
                  None \<Rightarrow> Inl Conversion_error
                | Some rs \<Rightarrow>
                    (case append_checked d tb rs of
                       Inl e \<Rightarrow> Inl e
                     | Inr tb' \<Rightarrow> Inr (AList.update t tb' d))))"

text \<open>\<^verbatim>\<open>INSERT INTO t VALUES (...)\<close>, one row of values, each with the type of its literal.\<close>

fun cell_type :: "cell \<Rightarrow> sqltype" where
  "cell_type Null = SQLNULL"
| "cell_type (IntV i) = (if in_int32 i then INTEGER else BIGINT)"
| "cell_type (StrV s) = VARCHAR"
| "cell_type (TsV y m d h mi s) = TIMESTAMP"

definition insert_values :: "database \<Rightarrow> string \<Rightarrow> cell list \<Rightarrow> error + database" where
  "insert_values d t r =
     insert_select d t \<lparr>rel_columns = map (\<lambda>c. ([], cell_type c)) r, rel_rows = [r]\<rparr>"

definition select_star :: "database \<Rightarrow> string \<Rightarrow> error + relation" where
  "select_star d t =
     (case map_of d t of
        None \<Rightarrow> Inl Catalog_error
      | Some tb \<Rightarrow> Inr \<lparr>rel_columns = columns tb, rel_rows = rows tb\<rparr>)"

definition table_rows :: "database \<Rightarrow> string \<Rightarrow> cell list list option" where
  "table_rows d t = map_option rows (map_of d t)"

text \<open>The rows and the columns of a table, empty for a name the catalog does not hold.\<close>

definition rows_of :: "database \<Rightarrow> string \<Rightarrow> cell list list" where
  "rows_of d t = (case map_of d t of None \<Rightarrow> [] | Some tb \<Rightarrow> rows tb)"

definition columns_of :: "database \<Rightarrow> string \<Rightarrow> (string \<times> sqltype) list" where
  "columns_of d t = (case map_of d t of None \<Rightarrow> [] | Some tb \<Rightarrow> columns tb)"

section \<open>The notebook cells\<close>

text \<open>
  The state the cells act on: the database file and the files of the data directory
  (a path holds the relation written to it).
\<close>

record state =
  db :: database
  files :: "string \<rightharpoonup> relation"

subsection \<open>Add starter data from CSV files\<close>

text \<open>
  \<^verbatim>\<open>
  con.execute("INSERT INTO tbl_source SELECT * FROM df_source")
  con.execute("INSERT INTO tbl_reviewer SELECT * FROM df_reviewer")
  \<close>
  The two dataframes are taken as the engine scans them. The statements commit one by
  one: when the second raises, the rows of the first are in the database.
\<close>

definition import_csv :: "relation \<Rightarrow> relation \<Rightarrow> database \<Rightarrow> database \<times> error option" where
  "import_csv df_source df_reviewer d =
     (case insert_select d ''tbl_source'' df_source of
        Inl e \<Rightarrow> (d, Some e)
      | Inr d1 \<Rightarrow>
          (case insert_select d1 ''tbl_reviewer'' df_reviewer of
             Inl e \<Rightarrow> (d1, Some e)
           | Inr d2 \<Rightarrow> (d2, None)))"

subsection \<open>Dump database contents to file\<close>

text \<open>\<^verbatim>\<open>os.path.join\<close> of two components, on POSIX.\<close>

definition path_join :: "string \<Rightarrow> string \<Rightarrow> string" where
  "path_join a b =
     (if b \<noteq> [] \<and> hd b = CHR ''/'' then b
      else if a = [] \<or> last a = CHR ''/'' then a @ b
      else a @ ''/'' @ b)"

definition dumped_db_file :: "string \<Rightarrow> string \<Rightarrow> string" where
  "dumped_db_file data_directory t = path_join data_directory (''data_'' @ t @ ''.parquet'')"

text \<open>
  \<^verbatim>\<open>COPY (SELECT * FROM t) TO 'f' (FORMAT 'parquet')\<close>. The statement reads the table
  and writes the file; it returns the database it was given. The table name and the path
  are pasted unescaped into the text of the statement. For a table name of the schema and
  a path without a quote the text is this \<^verbatim>\<open>COPY\<close>, and that is what the function
  describes. A path that holds a quote ends the literal early: the text is then another
  statement, or several, and what the engine runs can write to another path or change the
  database. The function does not describe that: it answers \<open>Unmodelled\<close>, and every theorem
  about the dump is stated for paths without a quote only.
\<close>

definition copy_to_parquet :: "string \<Rightarrow> string \<Rightarrow> state \<Rightarrow> error + state" where
  "copy_to_parquet t f s =
     (if CHR 0x27 \<in> set f then Inl Unmodelled
      else (case select_star (db s) t of
              Inl e \<Rightarrow> Inl e
            | Inr rel \<Rightarrow> Inr (s\<lparr>files := (files s)(f \<mapsto> rel)\<rparr>)))"

text \<open>
  \<^verbatim>\<open>
  for table in tables:
      dumped_db_file = os.path.join(data_directory, f"data_{table[0]}.parquet")
      con.execute(f"COPY (SELECT * FROM {table[0]}) TO '{dumped_db_file}' (FORMAT 'parquet')")
  \<close>
\<close>

fun dump_tables :: "string \<Rightarrow> string list \<Rightarrow> state \<Rightarrow> state \<times> error option" where
  "dump_tables data_directory [] s = (s, None)"
| "dump_tables data_directory (t # ts) s =
     (case copy_to_parquet t (dumped_db_file data_directory t) s of
        Inl e \<Rightarrow> (s, Some e)
      | Inr s' \<Rightarrow> dump_tables data_directory ts s')"

definition dump_database :: "string \<Rightarrow> state \<Rightarrow> state \<times> error option" where
  "dump_database data_directory s = dump_tables data_directory (show_tables (db s)) s"

text \<open>The directory as the notebook names it, a placeholder for the local clone.\<close>

definition data_directory :: string where
  "data_directory = ''<your_local_directory_where_clonded>/workshop/data''"

subsection \<open>Check build and view data\<close>

text \<open>
  \<^verbatim>\<open>SHOW TABLES\<close> with \<^verbatim>\<open>DESCRIBE tbl_response\<close>, and
  \<^verbatim>\<open>SELECT * FROM tbl_source\<close>: both cells only read.
\<close>

definition check_build :: "state \<Rightarrow> state \<times> error option" where
  "check_build s =
     (s, case select_star (db s) ''tbl_response'' of Inl e \<Rightarrow> Some e | Inr _ \<Rightarrow> None)"

definition view_data :: "state \<Rightarrow> state \<times> error option" where
  "view_data s =
     (s, case select_star (db s) ''tbl_source'' of Inl e \<Rightarrow> Some e | Inr _ \<Rightarrow> None)"

section \<open>The review application\<close>

text \<open>
  \<^verbatim>\<open>app.py\<close>, the application that \<^verbatim>\<open>streamlit run app.py\<close> launches, is not
  among the sources; only the database it works on and the names of its two settings
  are. What follows is the spec's list of its queries, written over the
  engine above: "insert response, count responses by document/reviewer, check conflict
  log, fetch next unreviewed document for a reviewer", with the two rules "do not exceed
  the configured per-document/per-reviewer review cap" and "skip documents with a logged
  conflict for this reviewer", both "simple filtered counts". The queries are separate
  statements: the fetch only reads, and the two inserts take the reviewer and the document
  as parameters. Nothing in the database ties an insert to a fetch.
\<close>

text \<open>
  Modelled from the spec: the two hard-coded settings of the application,
  \<^verbatim>\<open>MAX_REVIEWS_PER_DOCUMENT\<close> and \<^verbatim>\<open>MAX_REVIEWS_PER_REVIEWER\<close>, whose values
  the sources do not give.
\<close>

record settings =
  max_reviews_per_document :: nat
  max_reviews_per_reviewer :: nat

text \<open>
  Modelled from the spec: the query of \<^verbatim>\<open>app.py\<close> (not among the sources) that the
  spec calls "count responses by document".
\<close>

definition count_by_document :: "database \<Rightarrow> int \<Rightarrow> nat" where
  "count_by_document d did =
     length (filter (\<lambda>r. field (columns_of d ''tbl_response'') r ''document_id'' = IntV did)
       (rows_of d ''tbl_response''))"

text \<open>
  Modelled from the spec: the query of \<^verbatim>\<open>app.py\<close> (not among the sources) that the
  spec calls "count responses by reviewer".
\<close>

definition count_by_reviewer :: "database \<Rightarrow> int \<Rightarrow> nat" where
  "count_by_reviewer d rid =
     length (filter (\<lambda>r. field (columns_of d ''tbl_response'') r ''reviewer_id'' = IntV rid)
       (rows_of d ''tbl_response''))"

text \<open>
  Modelled from the spec: the filter of \<^verbatim>\<open>app.py\<close> (not among the sources) behind
  "check conflict log" and "unreviewed": the rows of a table for one (reviewer, document)
  pair.
\<close>

definition pair_rows :: "database \<Rightarrow> string \<Rightarrow> int \<Rightarrow> int \<Rightarrow> cell list list" where
  "pair_rows d t rid did =
     filter (\<lambda>r. field (columns_of d t) r ''reviewer_id'' = IntV rid
                \<and> field (columns_of d t) r ''document_id'' = IntV did) (rows_of d t)"

text \<open>
  Modelled from the spec: the query of \<^verbatim>\<open>app.py\<close> (not among the sources) that the
  spec calls "check conflict log": is there a row of \<^verbatim>\<open>tbl_log\<close> for this reviewer
  and this document.
\<close>

definition conflict_logged :: "database \<Rightarrow> int \<Rightarrow> int \<Rightarrow> bool" where
  "conflict_logged d rid did \<longleftrightarrow> pair_rows d ''tbl_log'' rid did \<noteq> []"

text \<open>
  Modelled from the spec: the test of \<^verbatim>\<open>app.py\<close> (not among the sources) behind
  "unreviewed": has this reviewer a response for this document.
\<close>

definition reviewed :: "database \<Rightarrow> int \<Rightarrow> int \<Rightarrow> bool" where
  "reviewed d rid did \<longleftrightarrow> pair_rows d ''tbl_response'' rid did \<noteq> []"

text \<open>
  Modelled from the spec: the documents \<^verbatim>\<open>app.py\<close> (not among the sources) chooses
  from, "identified by document id": the ids of \<^verbatim>\<open>tbl_source\<close> in table order. A
  \<^verbatim>\<open>NULL\<close> identifies no document.
\<close>

definition document_ids :: "database \<Rightarrow> int list" where
  "document_ids d =
     concat (map (\<lambda>r. case field (columns_of d ''tbl_source'') r ''document_id'' of
                         IntV did \<Rightarrow> [did] | _ \<Rightarrow> [])
       (rows_of d ''tbl_source''))"

text \<open>
  Modelled from the spec: the query of \<^verbatim>\<open>app.py\<close> (not among the sources) that the
  spec calls "fetch next unreviewed document for a reviewer". A reviewer at
  the per-reviewer cap is shown nothing; otherwise the first submission that this
  reviewer has not reviewed, has no logged conflict with, and that is below the
  per-document cap.
\<close>

definition fetch_next_document :: "settings \<Rightarrow> database \<Rightarrow> int \<Rightarrow> int option" where
  "fetch_next_document cfg d rid =
     (if max_reviews_per_reviewer cfg \<le> count_by_reviewer d rid then None
      else find (\<lambda>did. \<not> reviewed d rid did \<and> \<not> conflict_logged d rid did
                        \<and> count_by_document d did < max_reviews_per_document cfg)
             (document_ids d))"

text \<open>
  Modelled from the spec: the statement of \<^verbatim>\<open>app.py\<close> (not among the sources) that the
  spec calls "insert response", a parameterized query: one new row of
  \<^verbatim>\<open>tbl_response\<close> with the reviewer, the document, the scores, the comments and the
  ordering field it is given. It counts nothing and fetches nothing.
\<close>

definition insert_response ::
  "int \<Rightarrow> string \<Rightarrow> int \<Rightarrow> int \<Rightarrow> int \<Rightarrow> int \<Rightarrow> string \<Rightarrow> int \<Rightarrow> database \<Rightarrow> database \<times> error option" where
  "insert_response rid name did alignment science benefits comments screening_order d =
     (case insert_values d ''tbl_response''
             [IntV rid, StrV name, IntV did, IntV alignment, IntV science,
              IntV benefits, StrV comments, IntV screening_order] of
        Inl e \<Rightarrow> (d, Some e)
      | Inr d' \<Rightarrow> (d', None))"

text \<open>
  Modelled from the spec: the statement of \<^verbatim>\<open>app.py\<close> (not among the sources) that
  writes the conflict-of-interest log, a row "marking a declared conflict" of the reviewer
  with the document it is given.
\<close>

definition insert_conflict :: "int \<Rightarrow> int \<Rightarrow> string \<Rightarrow> database \<Rightarrow> database \<times> error option" where
  "insert_conflict rid did conflict d =
     (case insert_values d ''tbl_log'' [IntV rid, IntV did, StrV conflict] of
        Inl e \<Rightarrow> (d, Some e)
      | Inr d' \<Rightarrow> (d', None))"

section \<open>Runs\<close>

text \<open>
  Everything that acts on the database: the cells of the notebook and the two inserts of
  the application, for any reviewer and any document, in any order (sessions of several
  reviewers interleave). An action that raises keeps what its statements committed before
  the error.
\<close>

datatype action =
    Build
  | Check_build
  | Import relation relation
  | View_data
  | Dump string
  | Respond int string int int int int string int
  | Declare_conflict int int string

definition on_db :: "(database \<Rightarrow> database \<times> error option) \<Rightarrow> state \<Rightarrow> state \<times> error option" where
  "on_db f s = (case f (db s) of (d', e) \<Rightarrow> (s\<lparr>db := d'\<rparr>, e))"

fun run :: "action \<Rightarrow> state \<Rightarrow> state \<times> error option" where
  "run Build s = on_db build_database s"
| "run Check_build s = check_build s"
| "run (Import df_source df_reviewer) s = on_db (import_csv df_source df_reviewer) s"
| "run View_data s = view_data s"
| "run (Dump dir) s = dump_database dir s"
| "run (Respond rid name did a sc b comments ord) s =
     on_db (insert_response rid name did a sc b comments ord) s"
| "run (Declare_conflict rid did conflict) s = on_db (insert_conflict rid did conflict) s"

definition run_all :: "action list \<Rightarrow> state \<Rightarrow> state" where
  "run_all acts s = fold (\<lambda>a s'. fst (run a s')) acts s"

definition fresh :: state where
  "fresh = \<lparr>db = [], files = Map.empty\<rparr>"

text \<open>The runs whose dumps go to a directory without a quote in its name.\<close>

fun plain_dump :: "action \<Rightarrow> bool" where
  "plain_dump (Dump dir) = (CHR 0x27 \<notin> set dir)"
| "plain_dump _ = True"

definition plain_dumps :: "action list \<Rightarrow> bool" where
  "plain_dumps acts = list_all plain_dump acts"

text \<open>
  A reviewer action made for the document that the fetch returns for that reviewer in the
  state the action writes to: nothing was written between the fetch and the insert.
\<close>

fun fetched_action :: "settings \<Rightarrow> database \<Rightarrow> action \<Rightarrow> bool" where
  "fetched_action cfg d (Respond rid name did a sc b comments ord) =
     (fetch_next_document cfg d rid = Some did)"
| "fetched_action cfg d (Declare_conflict rid did conflict) =
     (fetch_next_document cfg d rid = Some did)"
| "fetched_action cfg d _ = True"

fun fetched :: "settings \<Rightarrow> action list \<Rightarrow> state \<Rightarrow> bool" where
  "fetched cfg [] s = True"
| "fetched cfg (a # acts) s = (fetched_action cfg (db s) a \<and> fetched cfg acts (fst (run a s)))"

section \<open>Predicates of the statements\<close>

text \<open>The catalog of a database, read back as table definitions.\<close>

definition catalog :: "database \<Rightarrow> table_def list" where
  "catalog d =
     map (\<lambda>(n, tb). \<lparr>tbl_name = n, tbl_columns = columns tb, tbl_constraints = constraints tb\<rparr>) d"

text \<open>A database built by the schema: its catalog is the schema, its rows are any.\<close>

definition built_by_schema :: "database \<Rightarrow> bool" where
  "built_by_schema d \<longleftrightarrow> catalog d = tbl_schema"

text \<open>A value that already has the type of a column; \<^verbatim>\<open>NULL\<close> has every type.\<close>

fun has_type :: "sqltype \<Rightarrow> cell \<Rightarrow> bool" where
  "has_type ty Null = True"
| "has_type ty (IntV i) = ((ty = INTEGER \<and> in_int32 i) \<or> (ty = BIGINT \<and> in_int64 i))"
| "has_type ty (StrV s) = (ty = VARCHAR)"
| "has_type ty (TsV y m d h mi s) = (ty = TIMESTAMP)"

definition conforms :: "(string \<times> sqltype) list \<Rightarrow> cell list \<Rightarrow> bool" where
  "conforms cols r = list_all2 has_type (map snd cols) r"

text \<open>Every stored row has one value of the column's type per column.\<close>

definition well_typed :: "database \<Rightarrow> bool" where
  "well_typed d \<longleftrightarrow> list_all (\<lambda>(t, tb). list_all (conforms (columns tb)) (rows tb)) d"

text \<open>
  The databases the engine can hold after the build cell: the script run on a fresh
  file, then any number of inserts that succeeded. The relation of an insert has one value
  per column in every row, as every relation the engine produces has.
\<close>

inductive populated :: "database \<Rightarrow> bool" where
  built: "populated (fst (build_database []))"
| inserted: "populated d \<Longrightarrow> list_all (\<lambda>r. length r = length (rel_columns rel)) (rel_rows rel)
     \<Longrightarrow> insert_select d t rel = Inr d' \<Longrightarrow> populated d'"

text \<open>
  A relation that an insert into the table takes: a cast exists from each of its column
  types to the type of the table column at the same position, and every value converts.
\<close>

definition castable :: "table_def \<Rightarrow> relation \<Rightarrow> bool" where
  "castable td rel \<longleftrightarrow>
     list_all2 (\<lambda>s c. cast_supported (snd s) (snd c)) (rel_columns rel) (tbl_columns td)
     \<and> cast_rows (map snd (tbl_columns td)) (rel_rows rel) \<noteq> None"

text \<open>Every table of the database has the name of a table of the schema.\<close>

definition schema_names :: "database \<Rightarrow> bool" where
  "schema_names d \<longleftrightarrow> list_all (\<lambda>n. n \<in> set (map tbl_name tbl_schema)) (map fst d)"

text \<open>Every table of the first database is in the second, with its rows as a prefix.\<close>

definition grows :: "database \<Rightarrow> database \<Rightarrow> bool" where
  "grows d d' \<longleftrightarrow>
     (\<forall>t tb. map_of d t = Some tb \<longrightarrow> (\<exists>more. map_of d' t = Some (tb\<lparr>rows := rows tb @ more\<rparr>)))"

text \<open>
  What the fetched runs keep: the catalog is empty or the schema, the responses are within
  the two caps, and the conflict log has at most one row for a reviewer and a document.
\<close>

definition sound :: "settings \<Rightarrow> database \<Rightarrow> bool" where
  "sound cfg d \<longleftrightarrow>
     (d = [] \<or> built_by_schema d)
     \<and> (\<forall>did. count_by_document d did \<le> max_reviews_per_document cfg)
     \<and> (\<forall>rid. count_by_reviewer d rid \<le> max_reviews_per_reviewer cfg)
     \<and> (\<forall>rid did. length (pair_rows d ''tbl_log'' rid did) \<le> 1)"

section \<open>Sample data\<close>

definition sample_response :: "cell list" where
  "sample_response = [IntV 1, StrV ''Ann'', IntV 7, IntV 3, IntV 4, IntV 5, StrV ''fine'', IntV 1]"

definition sample_db :: database where
  "sample_db =
     [(''tbl_log'', \<lparr>columns = tbl_columns tbl_log, constraints = [], rows = []\<rparr>),
      (''tbl_response'',
         \<lparr>columns = tbl_columns tbl_response, constraints = [], rows = [sample_response]\<rparr>),
      (''tbl_reviewer'', \<lparr>columns = tbl_columns tbl_reviewer, constraints = [], rows = []\<rparr>),
      (''tbl_source'', \<lparr>columns = tbl_columns tbl_source, constraints = [], rows = []\<rparr>)]"

text \<open>The response table as it would be with a key on the (reviewer, document) pair.\<close>

definition keyed_response :: table_def where
  "keyed_response = tbl_response\<lparr>tbl_constraints := [Primary_key [''reviewer_id'', ''document_id'']]\<rparr>"

definition sample_state :: state where
  "sample_state = \<lparr>db = sample_db, files = Map.empty\<rparr>"

text \<open>A reviewers file whose two columns are swapped, the names first.\<close>

definition reordered_reviewers :: relation where
  "reordered_reviewers =
     \<lparr>rel_columns = [(''reviewer_name'', VARCHAR), (''reviewer_id'', BIGINT)],
      rel_rows = [[StrV ''Alice'', IntV 1]]\<rparr>"

text \<open>The same swap in a file whose names are numbers: every value converts.\<close>

definition numbered_reviewers :: relation where
  "numbered_reviewers =
     \<lparr>rel_columns = [(''reviewer_name'', BIGINT), (''reviewer_id'', VARCHAR)],
      rel_rows = [[IntV 12, StrV ''Ann'']]\<rparr>"

definition no_sources :: relation where
  "no_sources =
     \<lparr>rel_columns = map (\<lambda>c. (fst c, VARCHAR)) (tbl_columns tbl_source), rel_rows = []\<rparr>"

text \<open>Two submissions and two reviewers, as \<^verbatim>\<open>read_csv\<close> hands them over: timestamps as text.\<close>

definition sample_sources :: relation where
  "sample_sources =
     \<lparr>rel_columns =
        map (\<lambda>c. (fst c, if snd c = INTEGER then BIGINT else VARCHAR)) (tbl_columns tbl_source),
      rel_rows = [IntV 7 # StrV ''2024-03-01 09:30:00'' # replicate 16 (StrV ''yes''),
                  IntV 8 # StrV ''2024-03-02 17:05:10'' # replicate 16 (StrV ''no'')]\<rparr>"

definition sample_reviewers :: relation where
  "sample_reviewers =
     \<lparr>rel_columns = [(''reviewer_id'', BIGINT), (''reviewer_name'', VARCHAR)],
      rel_rows = [[IntV 1, StrV ''Ann''], [IntV 2, StrV ''Bob'']]\<rparr>"

definition sample_settings :: settings where
  "sample_settings = \<lparr>max_reviews_per_document = 2, max_reviews_per_reviewer = 2\<rparr>"

definition sample_setup :: "action list" where
  "sample_setup = [Build, Check_build, Import sample_sources sample_reviewers, View_data]"

text \<open>Each action for the document fetched in the state it writes to.\<close>

definition sample_reviews :: "action list" where
  "sample_reviews =
     [Respond 1 ''Ann'' 7 3 4 5 ''fine'' 1, Respond 2 ''Bob'' 7 2 2 3 ''weak'' 1,
      Respond 2 ''Bob'' 8 5 5 5 ''good'' 2, Declare_conflict 1 8 ''coauthor'',
      Respond 3 ''Cy'' 8 4 4 4 ''sound'' 1, Dump data_directory]"

text \<open>
  Two sessions that are both shown document 7 before either writes, under a cap of one
  review per document; and one conflict submitted twice.
\<close>

definition tight_settings :: settings where
  "tight_settings = \<lparr>max_reviews_per_document = 1, max_reviews_per_reviewer = 2\<rparr>"

definition interleaved_reviews :: "action list" where
  "interleaved_reviews =
     [Respond 1 ''Ann'' 7 3 4 5 ''fine'' 1, Respond 2 ''Bob'' 7 2 2 3 ''weak'' 1]"

definition repeated_conflict :: "action list" where
  "repeated_conflict = [Declare_conflict 1 7 ''coauthor'', Declare_conflict 1 7 ''coauthor'']"

section \<open>Facts about the engine\<close>

lemmas schema_defs = tbl_schema_def tbl_log_def tbl_response_def tbl_reviewer_def tbl_source_def

lemma build_fresh:
  "build_database [] =
     ([(''tbl_log'', \<lparr>columns = tbl_columns tbl_log, constraints = [], rows = []\<rparr>),
       (''tbl_response'', \<lparr>columns = tbl_columns tbl_response, constraints = [], rows = []\<rparr>),
       (''tbl_reviewer'', \<lparr>columns = tbl_columns tbl_reviewer, constraints = [], rows = []\<rparr>),
       (''tbl_source'', \<lparr>columns = tbl_columns tbl_source, constraints = [], rows = []\<rparr>)], None)"
  by (simp add: build_database_def create_table_def schema_defs)

lemma built_by_schema_build: "built_by_schema (fst (build_database []))"
  by (simp add: build_fresh built_by_schema_def catalog_def) (simp add: schema_defs)

lemma built_by_schema_shape:
  assumes "built_by_schema d"
  obtains r1 r2 r3 r4 where
    "d = [(''tbl_log'', \<lparr>columns = tbl_columns tbl_log, constraints = [], rows = r1\<rparr>),
          (''tbl_response'', \<lparr>columns = tbl_columns tbl_response, constraints = [], rows = r2\<rparr>),
          (''tbl_reviewer'', \<lparr>columns = tbl_columns tbl_reviewer, constraints = [], rows = r3\<rparr>),
          (''tbl_source'', \<lparr>columns = tbl_columns tbl_source, constraints = [], rows = r4\<rparr>)]"
proof -
  from assms obtain n1 t1 n2 t2 n3 t3 n4 t4 where d: "d = [(n1, t1), (n2, t2), (n3, t3), (n4, t4)]"
    and c: "\<lparr>tbl_name = n1, tbl_columns = columns t1, tbl_constraints = constraints t1\<rparr> = tbl_log"
       "\<lparr>tbl_name = n2, tbl_columns = columns t2, tbl_constraints = constraints t2\<rparr> = tbl_response"
       "\<lparr>tbl_name = n3, tbl_columns = columns t3, tbl_constraints = constraints t3\<rparr> = tbl_reviewer"
       "\<lparr>tbl_name = n4, tbl_columns = columns t4, tbl_constraints = constraints t4\<rparr> = tbl_source"
    by (auto simp: built_by_schema_def catalog_def tbl_schema_def map_eq_Cons_conv)
  have "t1 = \<lparr>columns = tbl_columns tbl_log, constraints = [], rows = rows t1\<rparr>" "n1 = ''tbl_log''"
    using c(1) by (cases t1; simp add: tbl_log_def)+
  moreover have "t2 = \<lparr>columns = tbl_columns tbl_response, constraints = [], rows = rows t2\<rparr>" "n2 = ''tbl_response''"
    using c(2) by (cases t2; simp add: tbl_response_def)+
  moreover have "t3 = \<lparr>columns = tbl_columns tbl_reviewer, constraints = [], rows = rows t3\<rparr>" "n3 = ''tbl_reviewer''"
    using c(3) by (cases t3; simp add: tbl_reviewer_def)+
  moreover have "t4 = \<lparr>columns = tbl_columns tbl_source, constraints = [], rows = rows t4\<rparr>" "n4 = ''tbl_source''"
    using c(4) by (cases t4; simp add: tbl_source_def)+
  ultimately show thesis using that d by metis
qed

lemma built_by_schema_lookup:
  assumes "built_by_schema d" "td \<in> set tbl_schema"
  obtains tb where "map_of d (tbl_name td) = Some tb" "columns tb = tbl_columns td" "constraints tb = []"
proof -
  from assms(1) obtain r1 r2 r3 r4 where
    "d = [(''tbl_log'', \<lparr>columns = tbl_columns tbl_log, constraints = [], rows = r1\<rparr>),
          (''tbl_response'', \<lparr>columns = tbl_columns tbl_response, constraints = [], rows = r2\<rparr>),
          (''tbl_reviewer'', \<lparr>columns = tbl_columns tbl_reviewer, constraints = [], rows = r3\<rparr>),
          (''tbl_source'', \<lparr>columns = tbl_columns tbl_source, constraints = [], rows = r4\<rparr>)]"
    by (rule built_by_schema_shape)
  moreover from assms(2) have "td = tbl_log \<or> td = tbl_response \<or> td = tbl_reviewer \<or> td = tbl_source"
    by (simp add: tbl_schema_def)
  ultimately show thesis
    using that by (elim disjE) (simp_all add: schema_defs)
qed

lemma catalog_update:
  "map_of d t = Some tb \<Longrightarrow> columns tb' = columns tb \<Longrightarrow> constraints tb' = constraints tb
     \<Longrightarrow> catalog (AList.update t tb' d) = catalog d"
  by (induction d) (auto simp: catalog_def split: if_splits)

lemma cast_cell_conforming: "has_type ty c \<Longrightarrow> cast_cell ty c = Some c"
  by (cases c; cases ty) (auto simp: ranged_def)

lemma cast_supported_conforming: "has_type ty c \<Longrightarrow> cast_supported (cell_type c) ty"
  by (cases c; cases ty) (auto)

lemma cast_row_conforming: "list_all2 has_type tys r \<Longrightarrow> cast_row tys r = Some r"
  unfolding cast_row_def
  by (induction tys r rule: list_all2_induct) (auto simp: cast_cell_conforming)

lemma cast_rows_conforming:
  "list_all (list_all2 has_type tys) rs \<Longrightarrow> cast_rows tys rs = Some rs"
  unfolding cast_rows_def
  by (induction rs) (auto simp: cast_row_conforming)

lemma append_checked_unconstrained:
  "constraints tb = [] \<Longrightarrow> append_checked d tb rs = Inr (tb\<lparr>rows := rows tb @ rs\<rparr>)"
  by (induction rs arbitrary: tb) auto

lemma insert_select_unconstrained:
  assumes "map_of d t = Some tb" "constraints tb = []"
    and "list_all2 (\<lambda>s c. cast_supported (snd s) (snd c)) (rel_columns rel) (columns tb)"
    and "cast_rows (map snd (columns tb)) (rel_rows rel) = Some rs"
  shows "insert_select d t rel = Inr (AList.update t (tb\<lparr>rows := rows tb @ rs\<rparr>) d)"
  using assms list_all2_lengthD[OF assms(3)]
  by (simp add: insert_select_def append_checked_unconstrained)

lemma values_supported:
  "list_all2 has_type (map snd cols) r \<Longrightarrow>
     list_all2 (\<lambda>s c. cast_supported (snd s) (snd c)) (map (\<lambda>c. ([], cell_type c)) r) cols"
  by (induction cols arbitrary: r) (auto simp: list_all2_Cons1 cast_supported_conforming)

lemma insert_values_conforming:
  assumes "map_of d t = Some tb" "constraints tb = []" "conforms (columns tb) r"
  shows "insert_values d t r = Inr (AList.update t (tb\<lparr>rows := rows tb @ [r]\<rparr>) d)"
  unfolding insert_values_def
  by (rule insert_select_unconstrained[OF assms(1,2)])
     (use assms(3) in \<open>simp_all add: conforms_def values_supported cast_rows_conforming\<close>)

lemma table_rows_update:
  "table_rows (AList.update t tb d) t' = (if t' = t then Some (rows tb) else table_rows d t')"
  by (simp add: table_rows_def update_conv')

text \<open>
  The constraint checks are live: with a key on the pair the second insert of the same
  response is rejected, and so is a row without ids.
\<close>

lemma keyed_response_rejects:
  "(case create_table [] keyed_response of
      Inr d \<Rightarrow> (case insert_values d ''tbl_response'' sample_response of
                  Inr d' \<Rightarrow> (insert_values d' ''tbl_response'' sample_response,
                             insert_values d' ''tbl_response'' (replicate 8 Null))))
   = (Inl Constraint_error, Inl Constraint_error)"
  by code_simp

lemma built_by_schema_sample: "built_by_schema sample_db"
  by (simp add: built_by_schema_def catalog_def sample_db_def) (simp add: schema_defs)

lemma conforms_nulls: "conforms cols (replicate (length cols) Null)"
  unfolding conforms_def by (induction cols) auto

lemma copy_to_parquet_db: "copy_to_parquet t f s = Inr s' \<Longrightarrow> db s' = db s"
  by (auto simp: copy_to_parquet_def split: if_splits sum.splits)

lemma dump_tables_db: "db (fst (dump_tables dir ts s)) = db s"
  by (induction ts arbitrary: s) (auto split: sum.splits dest: copy_to_parquet_db)

lemma dump_tables_ok:
  assumes "\<forall>t\<in>set ts. map_of (db s) t \<noteq> None \<and> CHR 0x27 \<notin> set (dumped_db_file dir t)"
  shows "snd (dump_tables dir ts s) = None"
  using assms
proof (induction ts arbitrary: s)
  case Nil
  then show ?case by simp
next
  case (Cons t ts)
  from Cons.prems obtain tb where tb: "map_of (db s) t = Some tb" by auto
  let ?s' = "s\<lparr>files := (files s)(dumped_db_file dir t \<mapsto> \<lparr>rel_columns = columns tb, rel_rows = rows tb\<rparr>)\<rparr>"
  have c: "copy_to_parquet t (dumped_db_file dir t) s = Inr ?s'"
    using Cons.prems tb by (simp add: copy_to_parquet_def select_star_def)
  have "snd (dump_tables dir ts ?s') = None"
    by (rule Cons.IH) (use Cons.prems in simp)
  with c show ?case by simp
qed

lemma copy_to_parquet_files:
  "copy_to_parquet t f s = Inr s' \<Longrightarrow> p \<noteq> f \<Longrightarrow> files s' p = files s p"
  by (auto simp: copy_to_parquet_def split: if_splits sum.splits)

lemma dump_tables_other:
  "p \<notin> dumped_db_file dir ` set ts \<Longrightarrow> files (fst (dump_tables dir ts s)) p = files s p"
  by (induction ts arbitrary: s) (auto split: sum.splits dest: copy_to_parquet_files)

lemma dump_tables_written:
  assumes "\<forall>t\<in>set ts. map_of (db s) t \<noteq> None \<and> CHR 0x27 \<notin> set (dumped_db_file dir t)"
    and "distinct ts" and "inj_on (dumped_db_file dir) (set ts)"
    and "t \<in> set ts" and "map_of (db s) t = Some tb"
  shows "files (fst (dump_tables dir ts s)) (dumped_db_file dir t) =
           Some \<lparr>rel_columns = columns tb, rel_rows = rows tb\<rparr>"
  using assms
proof (induction ts arbitrary: s)
  case Nil
  then show ?case by simp
next
  case (Cons u us)
  from Cons.prems(1) obtain tu where tu: "map_of (db s) u = Some tu" by auto
  let ?f = "dumped_db_file dir"
  let ?s' = "s\<lparr>files := (files s)(?f u \<mapsto> \<lparr>rel_columns = columns tu, rel_rows = rows tu\<rparr>)\<rparr>"
  have c: "copy_to_parquet u (?f u) s = Inr ?s'"
    using Cons.prems(1) tu by (simp add: copy_to_parquet_def select_star_def)
  show ?case
  proof (cases "t = u")
    case True
    have "?f u \<notin> ?f ` set us" using Cons.prems(2,3) by (auto simp: inj_on_def)
    then have "files (fst (dump_tables dir us ?s')) (?f u) = files ?s' (?f u)"
      by (rule dump_tables_other)
    with True c tu Cons.prems(5) show ?thesis by simp
  next
    case False
    have "files (fst (dump_tables dir us ?s')) (?f t) = Some \<lparr>rel_columns = columns tb, rel_rows = rows tb\<rparr>"
      by (rule Cons.IH) (use Cons.prems False in \<open>simp_all add: inj_on_def\<close>)
    with c show ?thesis by simp
  qed
qed

lemma dumped_db_file_unfold:
  "dumped_db_file dir t =
     (if dir = [] \<or> last dir = CHR ''/'' then dir else dir @ ''/'') @ ''data_'' @ t @ ''.parquet''"
  by (simp add: dumped_db_file_def path_join_def)

lemma dumped_db_file_inj: "inj_on (dumped_db_file dir) A"
  by (rule inj_onI) (simp add: dumped_db_file_unfold)

lemma show_tables_built:
  assumes "built_by_schema d"
  shows "show_tables d = [''tbl_log'', ''tbl_response'', ''tbl_reviewer'', ''tbl_source'']"
proof -
  from assms have "map fst d = [''tbl_log'', ''tbl_response'', ''tbl_reviewer'', ''tbl_source'']"
    by (rule built_by_schema_shape) simp
  then show ?thesis by (simp add: show_tables_def)
qed

lemma ranged_Some: "ranged ty i = Some c \<Longrightarrow> c = IntV i \<and> has_type ty c"
  by (auto simp: ranged_def split: if_splits)

lemma text_to_timestamp_Some: "text_to_timestamp s = Some c \<Longrightarrow> has_type TIMESTAMP c"
  by (auto simp: text_to_timestamp_def Let_def split: if_splits option.splits)

lemma cast_cell_has_type: "cast_cell ty c = Some c' \<Longrightarrow> has_type ty c'"
  by (cases c; cases ty) (auto dest: ranged_Some text_to_timestamp_Some split: option.splits)

lemma cast_row_has_type:
  "length r = length tys \<Longrightarrow> cast_row tys r = Some r' \<Longrightarrow> list_all2 has_type tys r'"
  unfolding cast_row_def
proof (induction tys arbitrary: r r')
  case Nil
  then show ?case by simp
next
  case (Cons ty tys)
  then obtain c cs where r: "r = c # cs" by (cases r) auto
  with Cons.prems show ?case
    by (auto split: option.splits dest: cast_cell_has_type Cons.IH)
qed

lemma cast_rows_has_type:
  "list_all (\<lambda>r. length r = length tys) rs \<Longrightarrow> cast_rows tys rs = Some rs'
     \<Longrightarrow> list_all (list_all2 has_type tys) rs'"
  unfolding cast_rows_def
  by (induction rs arbitrary: rs') (auto split: option.splits dest: cast_row_has_type)

lemma append_checked_result:
  "append_checked d tb rs = Inr tb' \<Longrightarrow> tb' = tb\<lparr>rows := rows tb @ rs\<rparr>"
proof (induction rs arbitrary: tb)
  case Nil
  then show ?case by simp
next
  case (Cons r rs)
  from Cons.prems have "append_checked d (tb\<lparr>rows := rows tb @ [r]\<rparr>) rs = Inr tb'"
    by (simp split: if_splits)
  then have "tb' = (tb\<lparr>rows := rows tb @ [r]\<rparr>)\<lparr>rows := rows (tb\<lparr>rows := rows tb @ [r]\<rparr>) @ rs\<rparr>"
    by (rule Cons.IH)
  then show ?case by simp
qed

lemma insert_select_result:
  assumes "insert_select d t rel = Inr d'"
  obtains tb rs where "map_of d t = Some tb"
    and "length (rel_columns rel) = length (columns tb)"
    and "cast_rows (map snd (columns tb)) (rel_rows rel) = Some rs"
    and "d' = AList.update t (tb\<lparr>rows := rows tb @ rs\<rparr>) d"
  using assms
  by (auto simp: insert_select_def split: option.splits if_splits sum.splits
           dest: append_checked_result)

lemma list_all_update:
  "list_all P d \<Longrightarrow> P (t, tb) \<Longrightarrow> list_all P (AList.update t tb d)"
  by (induction d) auto

lemma map_of_list_all: "list_all P d \<Longrightarrow> map_of d t = Some tb \<Longrightarrow> P (t, tb)"
  by (induction d) (auto split: if_splits)

lemma insert_select_well_typed:
  assumes "well_typed d" and "list_all (\<lambda>r. length r = length (rel_columns rel)) (rel_rows rel)"
    and "insert_select d t rel = Inr d'"
  shows "well_typed d'"
proof -
  from assms(3) obtain tb rs where tb: "map_of d t = Some tb"
    and len: "length (rel_columns rel) = length (columns tb)"
    and rs: "cast_rows (map snd (columns tb)) (rel_rows rel) = Some rs"
    and d': "d' = AList.update t (tb\<lparr>rows := rows tb @ rs\<rparr>) d"
    by (rule insert_select_result)
  have old: "list_all (conforms (columns tb)) (rows tb)"
    using map_of_list_all[OF assms(1)[unfolded well_typed_def] tb] by simp
  have "list_all (\<lambda>r. length r = length (map snd (columns tb))) (rel_rows rel)"
    using assms(2) len by simp
  then have "list_all (list_all2 has_type (map snd (columns tb))) rs"
    using rs by (rule cast_rows_has_type)
  then have "list_all (conforms (columns tb)) rs"
    by (simp add: conforms_def[abs_def])
  with old show ?thesis
    unfolding d' well_typed_def using assms(1)[unfolded well_typed_def]
    by (intro list_all_update) simp_all
qed

lemma insert_select_built:
  assumes "built_by_schema d" and "insert_select d t rel = Inr d'"
  shows "built_by_schema d'"
proof -
  from assms(2) obtain tb rs where "map_of d t = Some tb"
    and "d' = AList.update t (tb\<lparr>rows := rows tb @ rs\<rparr>) d"
    by (rule insert_select_result)
  with assms(1) show ?thesis by (simp add: built_by_schema_def catalog_update)
qed

lemma populated_invariant: "populated d \<Longrightarrow> built_by_schema d \<and> well_typed d"
proof (induction rule: populated.induct)
  case built
  show ?case using built_by_schema_build by (simp add: build_fresh well_typed_def)
next
  case (inserted d rel t d')
  then show ?case by (auto intro: insert_select_built insert_select_well_typed)
qed

section \<open>The schema and the rows it admits\<close>

text \<open>
  C1: in a database built by the schema, a response row for a (reviewer_id, document_id)
  pair that an existing row of \<^verbatim>\<open>tbl_response\<close> already has is inserted without
  error and stored after the rows that were there; none of the four tables declares a
  constraint that could reject it.
\<close>

theorem duplicate_response_accepted:
  assumes "built_by_schema d"
    and "table_rows d ''tbl_response'' = Some rs"
    and "old \<in> set rs"
    and "conforms (tbl_columns tbl_response) new"
    and "field (tbl_columns tbl_response) new ''reviewer_id'' = field (tbl_columns tbl_response) old ''reviewer_id''"
    and "field (tbl_columns tbl_response) new ''document_id'' = field (tbl_columns tbl_response) old ''document_id''"
  shows "\<exists>d'. insert_values d ''tbl_response'' new = Inr d'
            \<and> table_rows d' ''tbl_response'' = Some (rs @ [new])
            \<and> built_by_schema d'
            \<and> list_all (\<lambda>td. tbl_constraints td = []) tbl_schema"
proof -
  have "tbl_response \<in> set tbl_schema" by (simp add: tbl_schema_def)
  with assms(1) obtain tb where tb: "map_of d (tbl_name tbl_response) = Some tb"
      "columns tb = tbl_columns tbl_response" "constraints tb = []"
    by (rule built_by_schema_lookup)
  have n: "tbl_name tbl_response = ''tbl_response''" by (simp add: tbl_response_def)
  have ins: "insert_values d ''tbl_response'' new = Inr (AList.update ''tbl_response'' (tb\<lparr>rows := rows tb @ [new]\<rparr>) d)"
    using tb assms(4) by (simp add: n insert_values_conforming)
  have "rows tb = rs" using tb(1) assms(2) by (simp add: n table_rows_def)
  moreover have "built_by_schema (AList.update ''tbl_response'' (tb\<lparr>rows := rows tb @ [new]\<rparr>) d)"
    using assms(1) tb(1) by (simp add: n built_by_schema_def catalog_update)
  moreover have "list_all (\<lambda>td. tbl_constraints td = []) tbl_schema"
    by (simp add: schema_defs)
  ultimately show ?thesis using ins by (simp add: table_rows_update)
qed

theorem duplicate_response_accepted_witness:
  "built_by_schema sample_db \<and> sample_response \<in> set (rows_of sample_db ''tbl_response'')
   \<and> (\<exists>d'. insert_values sample_db ''tbl_response'' sample_response = Inr d'
          \<and> table_rows d' ''tbl_response'' = Some [sample_response, sample_response])"
proof -
  have h2: "table_rows sample_db ''tbl_response'' = Some [sample_response]"
    by (simp add: table_rows_def sample_db_def)
  have h3: "sample_response \<in> set [sample_response]" by simp
  have h4: "conforms (tbl_columns tbl_response) sample_response"
    by (simp add: conforms_def tbl_response_def sample_response_def in_int32_def)
  from duplicate_response_accepted[OF built_by_schema_sample h2 h3 h4 refl refl]
  show ?thesis using built_by_schema_sample by (auto simp: rows_of_def sample_db_def)
qed

text \<open>
  C9: no table of the schema declares a constraint, \<^verbatim>\<open>NOT NULL\<close> included, and in a
  database built by the schema the row whose fields are all \<^verbatim>\<open>NULL\<close> is inserted
  into each of the four tables.
\<close>

theorem null_row_accepted:
  assumes "built_by_schema d" and "td \<in> set tbl_schema"
    and "table_rows d (tbl_name td) = Some rs"
  shows "\<exists>d'. insert_values d (tbl_name td) (replicate (length (tbl_columns td)) Null) = Inr d'
            \<and> table_rows d' (tbl_name td) = Some (rs @ [replicate (length (tbl_columns td)) Null])
            \<and> tbl_constraints td = []"
proof -
  from assms(1,2) obtain tb where tb: "map_of d (tbl_name td) = Some tb"
      "columns tb = tbl_columns td" "constraints tb = []"
    by (rule built_by_schema_lookup)
  have "conforms (columns tb) (replicate (length (tbl_columns td)) Null)"
    using conforms_nulls[of "columns tb"] by (simp add: tb(2))
  with tb have "insert_values d (tbl_name td) (replicate (length (tbl_columns td)) Null)
      = Inr (AList.update (tbl_name td) (tb\<lparr>rows := rows tb @ [replicate (length (tbl_columns td)) Null]\<rparr>) d)"
    by (simp add: insert_values_conforming)
  moreover have "rows tb = rs" using tb(1) assms(3) by (simp add: table_rows_def)
  moreover have "tbl_constraints td = []" using assms(2) by (auto simp: schema_defs)
  ultimately show ?thesis by (simp add: table_rows_update)
qed

theorem null_row_accepted_witness:
  "built_by_schema sample_db \<and> tbl_response \<in> set tbl_schema
   \<and> (\<exists>d'. insert_values sample_db ''tbl_response'' [Null, Null, Null, Null, Null, Null, Null, Null] = Inr d'
          \<and> table_rows d' ''tbl_response''
               = Some [sample_response, [Null, Null, Null, Null, Null, Null, Null, Null]])"
proof -
  have h2: "tbl_response \<in> set tbl_schema" by (simp add: tbl_schema_def)
  have h3: "table_rows sample_db (tbl_name tbl_response) = Some [sample_response]"
    by (simp add: table_rows_def sample_db_def tbl_response_def)
  have e: "replicate (length (tbl_columns tbl_response)) Null = [Null, Null, Null, Null, Null, Null, Null, Null]"
    by (simp add: tbl_response_def numeral_eq_Suc)
  have n: "tbl_name tbl_response = ''tbl_response''" by (simp add: tbl_response_def)
  from null_row_accepted[OF built_by_schema_sample h2 h3]
  show ?thesis using built_by_schema_sample h2 unfolding e n by auto
qed

text \<open>
  C7: in every database built by the schema and filled by inserts, \<^verbatim>\<open>tbl_response\<close>
  has exactly the eight columns reviewer_id, reviewer_name, document_id, alignment,
  science, benefits, comments and screening_order, and every row of it is eight values:
  integers for the two ids, the three scores and the screening order, text for the name
  and the comments (each possibly \<^verbatim>\<open>NULL\<close>).
\<close>

theorem response_row_shape:
  assumes "populated d"
  shows "columns_of d ''tbl_response'' =
           [(''reviewer_id'', INTEGER), (''reviewer_name'', VARCHAR), (''document_id'', INTEGER),
            (''alignment'', INTEGER), (''science'', INTEGER), (''benefits'', INTEGER),
            (''comments'', VARCHAR), (''screening_order'', INTEGER)]
       \<and> (\<forall>r \<in> set (rows_of d ''tbl_response'').
            \<exists>reviewer_id reviewer_name document_id alignment science benefits comments screening_order.
              r = [reviewer_id, reviewer_name, document_id, alignment, science, benefits,
                   comments, screening_order]
              \<and> has_type INTEGER reviewer_id \<and> has_type VARCHAR reviewer_name
              \<and> has_type INTEGER document_id \<and> has_type INTEGER alignment
              \<and> has_type INTEGER science \<and> has_type INTEGER benefits
              \<and> has_type VARCHAR comments \<and> has_type INTEGER screening_order)"
proof -
  from assms have b: "built_by_schema d" and w: "well_typed d"
    by (simp_all add: populated_invariant)
  have "tbl_response \<in> set tbl_schema" by (simp add: tbl_schema_def)
  with b obtain tb where tb: "map_of d (tbl_name tbl_response) = Some tb"
    "columns tb = tbl_columns tbl_response"
    by (rule built_by_schema_lookup)
  have n: "tbl_name tbl_response = ''tbl_response''" by (simp add: tbl_response_def)
  have cols: "columns_of d ''tbl_response'' = tbl_columns tbl_response"
    using tb by (simp add: columns_of_def n)
  have "list_all (conforms (tbl_columns tbl_response)) (rows_of d ''tbl_response'')"
    using map_of_list_all[OF w[unfolded well_typed_def] tb(1)] tb by (simp add: rows_of_def n)
  then have "\<forall>r \<in> set (rows_of d ''tbl_response''). conforms (tbl_columns tbl_response) r"
    by (simp add: list_all_iff)
  then show ?thesis unfolding cols
    by (auto simp: conforms_def tbl_response_def list_all2_Cons1)
qed

theorem response_row_shape_witness:
  "populated sample_db \<and> sample_response \<in> set (rows_of sample_db ''tbl_response'')
   \<and> (\<exists>reviewer_id reviewer_name document_id alignment science benefits comments screening_order.
         sample_response = [reviewer_id, reviewer_name, document_id, alignment, science, benefits,
                            comments, screening_order]
         \<and> has_type INTEGER reviewer_id \<and> has_type VARCHAR reviewer_name
         \<and> has_type INTEGER document_id \<and> has_type INTEGER alignment
         \<and> has_type INTEGER science \<and> has_type INTEGER benefits
         \<and> has_type VARCHAR comments \<and> has_type INTEGER screening_order)"
proof -
  have i: "insert_values (fst (build_database [])) ''tbl_response'' sample_response = Inr sample_db"
    by (simp add: build_fresh insert_values_def insert_select_def sample_response_def sample_db_def
          tbl_response_def cast_rows_def cast_row_def ranged_def in_int32_def)
  have p: "populated sample_db"
    by (rule populated.inserted[OF populated.built _ i[unfolded insert_values_def]]) simp
  have m: "sample_response \<in> set (rows_of sample_db ''tbl_response'')"
    by (simp add: rows_of_def sample_db_def)
  from response_row_shape[OF p] have "\<forall>r \<in> set (rows_of sample_db ''tbl_response'').
            \<exists>reviewer_id reviewer_name document_id alignment science benefits comments screening_order.
              r = [reviewer_id, reviewer_name, document_id, alignment, science, benefits,
                   comments, screening_order]
              \<and> has_type INTEGER reviewer_id \<and> has_type VARCHAR reviewer_name
              \<and> has_type INTEGER document_id \<and> has_type INTEGER alignment
              \<and> has_type INTEGER science \<and> has_type INTEGER benefits
              \<and> has_type VARCHAR comments \<and> has_type INTEGER screening_order"
    by (rule conjunct2)
  from this m have "\<exists>reviewer_id reviewer_name document_id alignment science benefits comments screening_order.
         sample_response = [reviewer_id, reviewer_name, document_id, alignment, science, benefits,
                            comments, screening_order]
         \<and> has_type INTEGER reviewer_id \<and> has_type VARCHAR reviewer_name
         \<and> has_type INTEGER document_id \<and> has_type INTEGER alignment
         \<and> has_type INTEGER science \<and> has_type INTEGER benefits
         \<and> has_type VARCHAR comments \<and> has_type INTEGER screening_order"
    by (rule bspec)
  with p m show ?thesis by blast
qed

section \<open>The bulk import\<close>

lemma insert_select_names:
  assumes "map snd (rel_columns rel') = map snd (rel_columns rel)" "rel_rows rel' = rel_rows rel"
  shows "insert_select d t rel' = insert_select d t rel"
proof -
  have l: "length (rel_columns rel') = length (rel_columns rel)"
    using assms(1) by (metis length_map)
  have same: "list_all2 (\<lambda>s c. cast_supported (snd s) (snd c)) (rel_columns rel') cs
      = list_all2 (\<lambda>s c. cast_supported (snd s) (snd c)) (rel_columns rel) cs" for cs
  proof -
    have "list_all2 (\<lambda>s c. cast_supported (snd s) (snd c)) (rel_columns rel') cs
      = list_all2 (\<lambda>s c. cast_supported s (snd c)) (map snd (rel_columns rel')) cs"
      by (simp add: list_all2_map1)
    also have "\<dots> = list_all2 (\<lambda>s c. cast_supported s (snd c)) (map snd (rel_columns rel)) cs"
      by (simp only: assms(1))
    also have "\<dots> = list_all2 (\<lambda>s c. cast_supported (snd s) (snd c)) (rel_columns rel) cs"
      by (simp add: list_all2_map1)
    finally show ?thesis .
  qed
  show ?thesis by (cases "map_of d t") (simp_all add: insert_select_def l assms(2) same)
qed

lemma insert_select_built_rows:
  assumes "built_by_schema d" "td \<in> set tbl_schema" "castable td rel"
    and "cast_rows (map snd (tbl_columns td)) (rel_rows rel) = Some rs"
  shows "\<exists>d'. insert_select d (tbl_name td) rel = Inr d' \<and> built_by_schema d'
    \<and> (\<forall>t. rows_of d' t = (if t = tbl_name td then rows_of d t @ rs else rows_of d t))"
proof -
  from assms(1,2) obtain tb where tb: "map_of d (tbl_name td) = Some tb"
      "columns tb = tbl_columns td" "constraints tb = []"
    by (rule built_by_schema_lookup)
  let ?d' = "AList.update (tbl_name td) (tb\<lparr>rows := rows tb @ rs\<rparr>) d"
  have i: "insert_select d (tbl_name td) rel = Inr ?d'"
    using tb assms(3,4) by (simp add: insert_select_unconstrained castable_def)
  moreover have "built_by_schema ?d'" using assms(1) i by (rule insert_select_built)
  moreover have "rows_of ?d' t = (if t = tbl_name td then rows_of d t @ rs else rows_of d t)" for t
    using tb(1) by (simp add: rows_of_def update_conv')
  ultimately show ?thesis by blast
qed

text \<open>
  C8, as amended: the bulk import matches columns by position, never by name. Two
  dataframes with the same column types and rows give the same result whatever their
  column names. On a database built by the schema, when for both files a cast exists from
  each column's type to the type of the table column at the same position and every value
  converts, the cell raises nothing and appends the converted rows, the k-th column of
  the file in the k-th column of the table. The claim as stated, that a reordered file
  whose column count matches is inserted without error, fails on
  \<open>reordered_reviewers\<close>: the name in first position does not convert to the integer
  column \<^verbatim>\<open>reviewer_id\<close>, and nothing is inserted.
\<close>

theorem import_positional:
  assumes "map snd (rel_columns df_source') = map snd (rel_columns df_source)"
    and "rel_rows df_source' = rel_rows df_source"
    and "map snd (rel_columns df_reviewer') = map snd (rel_columns df_reviewer)"
    and "rel_rows df_reviewer' = rel_rows df_reviewer"
  shows "import_csv df_source' df_reviewer' d = import_csv df_source df_reviewer d
       \<and> (built_by_schema d \<and> castable tbl_source df_source \<and> castable tbl_reviewer df_reviewer
            \<longrightarrow> snd (import_csv df_source df_reviewer d) = None
              \<and> (\<forall>rs rr.
                    cast_rows (map snd (tbl_columns tbl_source)) (rel_rows df_source) = Some rs
                    \<and> cast_rows (map snd (tbl_columns tbl_reviewer)) (rel_rows df_reviewer) = Some rr
                  \<longrightarrow> rows_of (fst (import_csv df_source df_reviewer d)) ''tbl_source''
                         = rows_of d ''tbl_source'' @ rs
                    \<and> rows_of (fst (import_csv df_source df_reviewer d)) ''tbl_reviewer''
                         = rows_of d ''tbl_reviewer'' @ rr))"
proof -
  have names: "import_csv df_source' df_reviewer' d = import_csv df_source df_reviewer d"
    using insert_select_names[OF assms(1,2)] insert_select_names[OF assms(3,4)]
    by (simp add: import_csv_def split: sum.splits)
  have ns: "tbl_name tbl_source = ''tbl_source''" and nr: "tbl_name tbl_reviewer = ''tbl_reviewer''"
    by (simp_all add: tbl_source_def tbl_reviewer_def)
  have ms: "tbl_source \<in> set tbl_schema" and mr: "tbl_reviewer \<in> set tbl_schema"
    by (simp_all add: tbl_schema_def)
  {
    assume b: "built_by_schema d"
      and c: "castable tbl_source df_source" "castable tbl_reviewer df_reviewer"
    from c obtain rs0 rr0 where
      rs0: "cast_rows (map snd (tbl_columns tbl_source)) (rel_rows df_source) = Some rs0" and
      rr0: "cast_rows (map snd (tbl_columns tbl_reviewer)) (rel_rows df_reviewer) = Some rr0"
      by (auto simp: castable_def)
    from insert_select_built_rows[OF b ms c(1) rs0]
    obtain d1 where d1: "insert_select d (tbl_name tbl_source) df_source = Inr d1"
        "built_by_schema d1"
        "\<And>t. rows_of d1 t = (if t = tbl_name tbl_source then rows_of d t @ rs0 else rows_of d t)"
      by blast
    from insert_select_built_rows[OF d1(2) mr c(2) rr0]
    obtain d2 where d2: "insert_select d1 (tbl_name tbl_reviewer) df_reviewer = Inr d2"
        "\<And>t. rows_of d2 t = (if t = tbl_name tbl_reviewer then rows_of d1 t @ rr0 else rows_of d1 t)"
      by blast
    have run: "import_csv df_source df_reviewer d = (d2, None)"
      using d1(1) d2(1) by (simp add: import_csv_def ns nr)
    then have ok: "snd (import_csv df_source df_reviewer d) = None" by simp
    have stored: "rows_of (fst (import_csv df_source df_reviewer d)) ''tbl_source''
                     = rows_of d ''tbl_source'' @ rs
                \<and> rows_of (fst (import_csv df_source df_reviewer d)) ''tbl_reviewer''
                     = rows_of d ''tbl_reviewer'' @ rr"
      if "cast_rows (map snd (tbl_columns tbl_source)) (rel_rows df_source) = Some rs"
        and "cast_rows (map snd (tbl_columns tbl_reviewer)) (rel_rows df_reviewer) = Some rr"
      for rs rr
      using that rs0 rr0 run by (simp add: d2(2) d1(3) ns nr)
    note ok stored
  }
  with names show ?thesis by blast
qed

lemma sample_sources_cast:
  "cast_rows (map snd (tbl_columns tbl_source)) (rel_rows sample_sources)
     = Some [IntV 7 # TsV 2024 3 1 9 30 0 # replicate 16 (StrV ''yes''),
             IntV 8 # TsV 2024 3 2 17 5 10 # replicate 16 (StrV ''no'')]"
  by code_simp

lemma sample_sources_castable: "castable tbl_source sample_sources"
  unfolding castable_def using sample_sources_cast
  by (simp add: sample_sources_def tbl_source_def)

theorem import_positional_witness:
  "built_by_schema (fst (build_database []))
   \<and> castable tbl_source sample_sources \<and> castable tbl_reviewer numbered_reviewers
   \<and> import_csv sample_sources numbered_reviewers (fst (build_database []))
       = import_csv sample_sources
           \<lparr>rel_columns = [(''reviewer_id'', BIGINT), (''reviewer_name'', VARCHAR)],
            rel_rows = [[IntV 12, StrV ''Ann'']]\<rparr> (fst (build_database []))
   \<and> snd (import_csv sample_sources numbered_reviewers (fst (build_database []))) = None
   \<and> rows_of (fst (import_csv sample_sources numbered_reviewers (fst (build_database [])))) ''tbl_source''
       = [IntV 7 # TsV 2024 3 1 9 30 0 # replicate 16 (StrV ''yes''),
          IntV 8 # TsV 2024 3 2 17 5 10 # replicate 16 (StrV ''no'')]
   \<and> rows_of (fst (import_csv sample_sources numbered_reviewers (fst (build_database [])))) ''tbl_reviewer''
       = [[IntV 12, StrV ''Ann'']]"
proof -
  let ?d = "fst (build_database [])"
  let ?plain = "\<lparr>rel_columns = [(''reviewer_id'', BIGINT), (''reviewer_name'', VARCHAR)],
            rel_rows = [[IntV 12, StrV ''Ann'']]\<rparr>"
  note cs = sample_sources_castable and rs = sample_sources_cast
  have rr: "cast_rows (map snd (tbl_columns tbl_reviewer)) (rel_rows numbered_reviewers)
              = Some [[IntV 12, StrV ''Ann'']]"
    by (simp add: numbered_reviewers_def tbl_reviewer_def cast_rows_def cast_row_def ranged_def in_int32_def)
  have cr: "castable tbl_reviewer numbered_reviewers"
    using rr by (simp add: castable_def) (simp add: numbered_reviewers_def tbl_reviewer_def)
  have old: "rows_of ?d ''tbl_reviewer'' = []" "rows_of ?d ''tbl_source'' = []"
    by (simp_all add: build_fresh rows_of_def)
  have h: "map snd (rel_columns numbered_reviewers) = map snd (rel_columns ?plain)"
      "rel_rows numbered_reviewers = rel_rows ?plain"
    by (simp_all add: numbered_reviewers_def)
  note U = import_positional[OF refl refl h(1) h(2), of sample_sources ?d]
  from U have 1: "import_csv sample_sources numbered_reviewers ?d = import_csv sample_sources ?plain ?d"
    by (rule conjunct1)
  note V = import_positional[OF refl refl refl refl, of sample_sources numbered_reviewers ?d]
  from V built_by_schema_build cs cr
  have 2: "snd (import_csv sample_sources numbered_reviewers ?d) = None" by blast
  from V built_by_schema_build cs cr rs rr
  have 3: "rows_of (fst (import_csv sample_sources numbered_reviewers ?d)) ''tbl_source''
       = rows_of ?d ''tbl_source'' @ [IntV 7 # TsV 2024 3 1 9 30 0 # replicate 16 (StrV ''yes''),
          IntV 8 # TsV 2024 3 2 17 5 10 # replicate 16 (StrV ''no'')]
     \<and> rows_of (fst (import_csv sample_sources numbered_reviewers ?d)) ''tbl_reviewer''
       = rows_of ?d ''tbl_reviewer'' @ [[IntV 12, StrV ''Ann'']]" by blast
  from 1 2 3 cs cr built_by_schema_build show ?thesis unfolding old by simp
qed

theorem import_reordered_counterexample:
  "length (rel_columns reordered_reviewers) = length (tbl_columns tbl_reviewer)
   \<and> insert_select (fst (build_database [])) ''tbl_reviewer'' reordered_reviewers = Inl Conversion_error
   \<and> import_csv no_sources reordered_reviewers (fst (build_database []))
       = (fst (build_database []), Some Conversion_error)"
  by (simp add: build_fresh import_csv_def insert_select_def reordered_reviewers_def no_sources_def
        tbl_reviewer_def tbl_source_def cast_rows_def cast_row_def text_to_integer_def trim_def
        number_value_def digit_val_def update_conv')

section \<open>The Parquet dump\<close>

text \<open>
  C6: on a database built by the schema, with a data directory whose name holds no quote,
  \<^verbatim>\<open>SHOW TABLES\<close> returns the four tables, the dump raises nothing, and for each of
  them the file \<^verbatim>\<open>data_<table>.parquet\<close> in the data directory holds the columns and
  exactly the rows of that table; no other path is written.
\<close>

theorem dump_writes_every_table:
  assumes "built_by_schema (db s)" and "CHR 0x27 \<notin> set dir"
  shows "show_tables (db s) = [''tbl_log'', ''tbl_response'', ''tbl_reviewer'', ''tbl_source'']
       \<and> snd (dump_database dir s) = None
       \<and> (\<forall>t \<in> set (show_tables (db s)).
             files (fst (dump_database dir s))
                   (path_join dir (''data_'' @ t @ ''.parquet''))
               = Some \<lparr>rel_columns = columns_of (db s) t, rel_rows = rows_of (db s) t\<rparr>)
       \<and> (\<forall>p. p \<notin> (\<lambda>t. path_join dir (''data_'' @ t @ ''.parquet'')) ` set (show_tables (db s))
             \<longrightarrow> files (fst (dump_database dir s)) p = files s p)"
proof -
  let ?ts = "show_tables (db s)"
  have ts: "?ts = [''tbl_log'', ''tbl_response'', ''tbl_reviewer'', ''tbl_source'']"
    using assms(1) by (rule show_tables_built)
  have present: "\<forall>t\<in>set ?ts. map_of (db s) t \<noteq> None \<and> CHR 0x27 \<notin> set (dumped_db_file dir t)"
  proof
    fix t assume t: "t \<in> set ?ts"
    have "map_of (db s) t \<noteq> None"
    proof -
      from assms(1) obtain r1 r2 r3 r4 where "db s =
         [(''tbl_log'', \<lparr>columns = tbl_columns tbl_log, constraints = [], rows = r1\<rparr>),
          (''tbl_response'', \<lparr>columns = tbl_columns tbl_response, constraints = [], rows = r2\<rparr>),
          (''tbl_reviewer'', \<lparr>columns = tbl_columns tbl_reviewer, constraints = [], rows = r3\<rparr>),
          (''tbl_source'', \<lparr>columns = tbl_columns tbl_source, constraints = [], rows = r4\<rparr>)]"
        by (rule built_by_schema_shape)
      with t show ?thesis unfolding ts by auto
    qed
    moreover have "CHR 0x27 \<notin> set (dumped_db_file dir t)"
      using assms(2) t unfolding ts by (auto simp: dumped_db_file_unfold)
    ultimately show "map_of (db s) t \<noteq> None \<and> CHR 0x27 \<notin> set (dumped_db_file dir t)" ..
  qed
  have dist: "distinct ?ts" by (simp add: ts)
  have ok: "snd (dump_database dir s) = None"
    unfolding dump_database_def using present by (rule dump_tables_ok)
  have written: "\<forall>t \<in> set ?ts.
             files (fst (dump_database dir s))
                   (path_join dir (''data_'' @ t @ ''.parquet''))
               = Some \<lparr>rel_columns = columns_of (db s) t, rel_rows = rows_of (db s) t\<rparr>"
  proof
    fix t assume t: "t \<in> set ?ts"
    with present obtain tb where tb: "map_of (db s) t = Some tb" by auto
    have "files (fst (dump_tables dir ?ts s)) (dumped_db_file dir t)
            = Some \<lparr>rel_columns = columns tb, rel_rows = rows tb\<rparr>"
      using present dist dumped_db_file_inj t tb by (rule dump_tables_written)
    then show "files (fst (dump_database dir s))
                   (path_join dir (''data_'' @ t @ ''.parquet''))
               = Some \<lparr>rel_columns = columns_of (db s) t, rel_rows = rows_of (db s) t\<rparr>"
      using tb by (simp add: dump_database_def dumped_db_file_def columns_of_def rows_of_def)
  qed
  have other: "\<forall>p. p \<notin> (\<lambda>t. path_join dir (''data_'' @ t @ ''.parquet'')) ` set ?ts
             \<longrightarrow> files (fst (dump_database dir s)) p = files s p"
  proof (intro allI impI)
    fix p assume "p \<notin> (\<lambda>t. path_join dir (''data_'' @ t @ ''.parquet'')) ` set ?ts"
    then have "p \<notin> dumped_db_file dir ` set ?ts"
      by (simp add: dumped_db_file_def image_def)
    then show "files (fst (dump_database dir s)) p = files s p"
      unfolding dump_database_def by (rule dump_tables_other)
  qed
  from ts ok written other show ?thesis by blast
qed

theorem dump_writes_every_table_witness:
  "built_by_schema (db sample_state) \<and> CHR 0x27 \<notin> set data_directory
   \<and> snd (dump_database data_directory sample_state) = None
   \<and> files (fst (dump_database data_directory sample_state))
        ''<your_local_directory_where_clonded>/workshop/data/data_tbl_response.parquet''
       = Some \<lparr>rel_columns = tbl_columns tbl_response, rel_rows = [sample_response]\<rparr>"
proof -
  have h1: "built_by_schema (db sample_state)"
    using built_by_schema_sample by (simp add: sample_state_def)
  have h2: "CHR 0x27 \<notin> set data_directory" by (simp add: data_directory_def)
  have p: "path_join data_directory (''data_'' @ ''tbl_response'' @ ''.parquet'')
             = ''<your_local_directory_where_clonded>/workshop/data/data_tbl_response.parquet''"
    by (simp add: path_join_def data_directory_def)
  have c: "columns_of (db sample_state) ''tbl_response'' = tbl_columns tbl_response"
      "rows_of (db sample_state) ''tbl_response'' = [sample_response]"
    by (simp_all add: columns_of_def rows_of_def sample_state_def sample_db_def)
  note T = dump_writes_every_table[OF h1 h2]
  from T have ts: "show_tables (db sample_state) = [''tbl_log'', ''tbl_response'', ''tbl_reviewer'', ''tbl_source'']"
    by (rule conjunct1)
  from T have ok: "snd (dump_database data_directory sample_state) = None"
    by blast
  from T have every: "\<forall>t \<in> set (show_tables (db sample_state)).
             files (fst (dump_database data_directory sample_state))
                   (path_join data_directory (''data_'' @ t @ ''.parquet''))
               = Some \<lparr>rel_columns = columns_of (db sample_state) t,
                       rel_rows = rows_of (db sample_state) t\<rparr>"
    by blast
  have "''tbl_response'' \<in> set (show_tables (db sample_state))"
    unfolding ts by simp
  with every have "files (fst (dump_database data_directory sample_state))
           (path_join data_directory (''data_'' @ ''tbl_response'' @ ''.parquet''))
         = Some \<lparr>rel_columns = columns_of (db sample_state) ''tbl_response'',
                 rel_rows = rows_of (db sample_state) ''tbl_response''\<rparr>"
    by (rule bspec)
  with ok h1 h2 show ?thesis unfolding p c by blast
qed

text \<open>
  C10: the Parquet dump leaves the database as it was. For a database whose tables are
  tables of the schema and a data directory whose name holds no quote, the state after the
  cell holds the same catalog and the same rows in every table, whether or not a statement
  of the loop raises.
\<close>

theorem dump_keeps_database:
  assumes "schema_names (db s)" and "CHR 0x27 \<notin> set dir"
  shows "db (fst (dump_database dir s)) = db s"
  by (simp add: dump_database_def dump_tables_db)

theorem dump_keeps_database_witness:
  "schema_names (db sample_state) \<and> CHR 0x27 \<notin> set data_directory
   \<and> db (fst (dump_database data_directory sample_state)) = sample_db"
proof -
  have h1: "schema_names (db sample_state)"
    by (simp add: schema_names_def sample_state_def sample_db_def schema_defs)
  have h2: "CHR 0x27 \<notin> set data_directory" by (simp add: data_directory_def)
  from dump_keeps_database[OF h1 h2] h1 h2 show ?thesis
    by (simp add: sample_state_def)
qed

section \<open>Runs of the notebook and the application\<close>

lemma grows_refl: "grows d d"
  unfolding grows_def
proof (intro allI impI)
  fix t tb assume "map_of d t = Some tb"
  then have "map_of d t = Some (tb\<lparr>rows := rows tb @ []\<rparr>)" by simp
  then show "\<exists>more. map_of d t = Some (tb\<lparr>rows := rows tb @ more\<rparr>)" ..
qed

lemma grows_trans:
  assumes "grows d1 d2" "grows d2 d3"
  shows "grows d1 d3"
  unfolding grows_def
proof (intro allI impI)
  fix t tb assume "map_of d1 t = Some tb"
  with assms(1) obtain m1 where m1: "map_of d2 t = Some (tb\<lparr>rows := rows tb @ m1\<rparr>)"
    unfolding grows_def by blast
  with assms(2) obtain m2 where
    "map_of d3 t = Some ((tb\<lparr>rows := rows tb @ m1\<rparr>)\<lparr>rows := rows (tb\<lparr>rows := rows tb @ m1\<rparr>) @ m2\<rparr>)"
    unfolding grows_def by blast
  then have "map_of d3 t = Some (tb\<lparr>rows := rows tb @ (m1 @ m2)\<rparr>)" by simp
  then show "\<exists>more. map_of d3 t = Some (tb\<lparr>rows := rows tb @ more\<rparr>)" ..
qed

lemma create_table_grows: "create_table d td = Inr d' \<Longrightarrow> grows d d'"
  unfolding grows_def
proof (intro allI impI)
  fix t tb assume c: "create_table d td = Inr d'" and m: "map_of d t = Some tb"
  from c have "d' = d @ [(tbl_name td, \<lparr>columns = tbl_columns td, constraints = tbl_constraints td, rows = []\<rparr>)]"
    by (simp add: create_table_def split: if_splits)
  with m have "map_of d' t = Some (tb\<lparr>rows := rows tb @ []\<rparr>)"
    by (simp add: map_add_def)
  then show "\<exists>more. map_of d' t = Some (tb\<lparr>rows := rows tb @ more\<rparr>)" ..
qed

lemma run_script_grows: "grows d (fst (run_script d tds))"
proof (induction tds arbitrary: d)
  case Nil
  show ?case by (simp add: grows_refl)
next
  case (Cons td tds)
  show ?case
  proof (cases "create_table d td")
    case (Inl e)
    then show ?thesis by (simp add: grows_refl)
  next
    case (Inr d')
    then have "grows d d'" by (rule create_table_grows)
    moreover have "grows d' (fst (run_script d' tds))" by (rule Cons.IH)
    ultimately show ?thesis using Inr by (simp add: grows_trans)
  qed
qed

lemma insert_select_grows:
  assumes "insert_select d t rel = Inr d'"
  shows "grows d d'"
proof -
  from assms obtain tb rs where tb: "map_of d t = Some tb"
    and d': "d' = AList.update t (tb\<lparr>rows := rows tb @ rs\<rparr>) d"
    by (rule insert_select_result)
  show ?thesis unfolding grows_def
  proof (intro allI impI)
    fix u tu assume u: "map_of d u = Some tu"
    show "\<exists>more. map_of d' u = Some (tu\<lparr>rows := rows tu @ more\<rparr>)"
    proof (cases "u = t")
      case True
      with u tb have "map_of d' u = Some (tu\<lparr>rows := rows tu @ rs\<rparr>)"
        by (simp add: d' update_conv')
      then show ?thesis ..
    next
      case False
      with u have "map_of d' u = Some (tu\<lparr>rows := rows tu @ []\<rparr>)"
        by (simp add: d' update_conv')
      then show ?thesis ..
    qed
  qed
qed

lemma import_csv_grows: "grows d (fst (import_csv df_source df_reviewer d))"
proof (cases "insert_select d ''tbl_source'' df_source")
  case (Inl e)
  then show ?thesis by (simp add: import_csv_def grows_refl)
next
  case (Inr d1)
  then have g1: "grows d d1" by (rule insert_select_grows)
  show ?thesis
  proof (cases "insert_select d1 ''tbl_reviewer'' df_reviewer")
    case (Inl e)
    with Inr g1 show ?thesis by (simp add: import_csv_def)
  next
    case (Inr d2)
    then have "grows d1 d2" by (rule insert_select_grows)
    with g1 have "grows d d2" by (rule grows_trans)
    with Inr \<open>insert_select d ''tbl_source'' df_source = Inr d1\<close> show ?thesis
      by (simp add: import_csv_def)
  qed
qed

lemma insert_values_grows: "insert_values d t r = Inr d' \<Longrightarrow> grows d d'"
  unfolding insert_values_def by (rule insert_select_grows)

lemma insert_response_grows:
  "grows d (fst (insert_response rid name did a sc b comments ord d))"
proof (cases "insert_values d ''tbl_response''
         [IntV rid, StrV name, IntV did, IntV a, IntV sc, IntV b, StrV comments, IntV ord]")
  case (Inl e)
  then show ?thesis by (simp add: insert_response_def grows_refl)
next
  case (Inr d')
  then have "grows d d'" by (rule insert_values_grows)
  with Inr show ?thesis by (simp add: insert_response_def)
qed

lemma insert_conflict_grows: "grows d (fst (insert_conflict rid did conflict d))"
proof (cases "insert_values d ''tbl_log'' [IntV rid, IntV did, StrV conflict]")
  case (Inl e)
  then show ?thesis by (simp add: insert_conflict_def grows_refl)
next
  case (Inr d')
  then have "grows d d'" by (rule insert_values_grows)
  with Inr show ?thesis by (simp add: insert_conflict_def)
qed

lemma on_db_db: "db (fst (on_db f s)) = fst (f (db s))"
  by (simp add: on_db_def split: prod.splits)

lemma run_grows: "grows (db s) (db (fst (run a s)))"
  by (cases a)
     (simp_all add: on_db_db build_database_def run_script_grows import_csv_grows
        insert_response_grows insert_conflict_grows check_build_def view_data_def
        dump_database_def dump_tables_db grows_refl)

lemma run_all_Cons: "run_all (a # acts) s = run_all acts (fst (run a s))"
  by (simp add: run_all_def)

lemma run_all_Nil: "run_all [] s = s"
  by (simp add: run_all_def)

lemma run_all_grows: "grows (db s) (db (run_all acts s))"
proof (induction acts arbitrary: s)
  case Nil
  show ?case by (simp add: run_all_Nil grows_refl)
next
  case (Cons a acts)
  have "grows (db s) (db (fst (run a s)))" by (rule run_grows)
  moreover have "grows (db (fst (run a s))) (db (run_all acts (fst (run a s))))"
    by (rule Cons.IH)
  ultimately show ?case by (simp add: run_all_Cons grows_trans)
qed

lemma conflict_logged_grows:
  assumes "grows d d'" "conflict_logged d rid did"
  shows "conflict_logged d' rid did"
proof (cases "map_of d ''tbl_log''")
  case None
  with assms(2) show ?thesis by (simp add: conflict_logged_def pair_rows_def rows_of_def)
next
  case (Some tb)
  with assms(1) obtain more where "map_of d' ''tbl_log'' = Some (tb\<lparr>rows := rows tb @ more\<rparr>)"
    unfolding grows_def by blast
  with Some assms(2) show ?thesis
    by (simp add: conflict_logged_def pair_rows_def rows_of_def columns_of_def)
qed

lemma fetch_next_document_Some:
  assumes "fetch_next_document cfg d rid = Some did"
  shows "\<not> reviewed d rid did" "\<not> conflict_logged d rid did"
    "count_by_document d did < max_reviews_per_document cfg"
    "count_by_reviewer d rid < max_reviews_per_reviewer cfg"
  using assms
  by (auto simp: fetch_next_document_def find_Some_iff split: if_splits)

text \<open>
  Along a run the tables stay tables of the schema: every dump of the run pastes the name
  of a table of the schema into its statement.
\<close>

lemma create_table_names:
  assumes "schema_names d" "td \<in> set tbl_schema" "create_table d td = Inr d'"
  shows "schema_names d'"
proof -
  from assms(3) have "d' = d @ [(tbl_name td, \<lparr>columns = tbl_columns td, constraints = tbl_constraints td, rows = []\<rparr>)]"
    by (simp add: create_table_def split: if_splits)
  with assms(1,2) show ?thesis by (simp add: schema_names_def)
qed

lemma run_script_names:
  "schema_names d \<Longrightarrow> set tds \<subseteq> set tbl_schema \<Longrightarrow> schema_names (fst (run_script d tds))"
proof (induction tds arbitrary: d)
  case Nil
  then show ?case by simp
next
  case (Cons td tds)
  show ?case
  proof (cases "create_table d td")
    case (Inl e)
    with Cons.prems show ?thesis by simp
  next
    case (Inr d')
    with Cons.prems have "schema_names d'" by (auto intro: create_table_names)
    with Cons.prems have "schema_names (fst (run_script d' tds))" by (intro Cons.IH) auto
    with Inr show ?thesis by simp
  qed
qed

lemma insert_select_names_kept:
  assumes "schema_names d" "insert_select d t rel = Inr d'"
  shows "schema_names d'"
proof -
  from assms(2) obtain tb rs where tb: "map_of d t = Some tb"
    and d': "d' = AList.update t (tb\<lparr>rows := rows tb @ rs\<rparr>) d"
    by (rule insert_select_result)
  from tb have "t \<in> fst ` set d" by (rule map_of_SomeD[THEN imageI, of _ _ _ fst, simplified])
  then have "map fst d' = map fst d" by (simp add: d' update_keys)
  with assms(1) show ?thesis by (simp add: schema_names_def)
qed

lemma import_csv_names:
  assumes "schema_names d"
  shows "schema_names (fst (import_csv df_source df_reviewer d))"
proof (cases "insert_select d ''tbl_source'' df_source")
  case (Inl e)
  with assms show ?thesis by (simp add: import_csv_def)
next
  case (Inr d1)
  with assms have n1: "schema_names d1" by (rule insert_select_names_kept)
  show ?thesis
  proof (cases "insert_select d1 ''tbl_reviewer'' df_reviewer")
    case (Inl e)
    with Inr n1 show ?thesis by (simp add: import_csv_def)
  next
    case (Inr d2)
    with n1 have "schema_names d2" by (rule insert_select_names_kept)
    with Inr \<open>insert_select d ''tbl_source'' df_source = Inr d1\<close> show ?thesis
      by (simp add: import_csv_def)
  qed
qed

lemma insert_response_names:
  "schema_names d \<Longrightarrow> schema_names (fst (insert_response rid name did a sc b comments ord d))"
  by (cases "insert_values d ''tbl_response''
         [IntV rid, StrV name, IntV did, IntV a, IntV sc, IntV b, StrV comments, IntV ord]")
     (auto simp: insert_response_def insert_values_def intro: insert_select_names_kept)

lemma insert_conflict_names:
  "schema_names d \<Longrightarrow> schema_names (fst (insert_conflict rid did conflict d))"
  by (cases "insert_values d ''tbl_log'' [IntV rid, IntV did, StrV conflict]")
     (auto simp: insert_conflict_def insert_values_def intro: insert_select_names_kept)

lemma run_names: "schema_names (db s) \<Longrightarrow> schema_names (db (fst (run a s)))"
  by (cases a)
     (simp_all add: on_db_db build_database_def run_script_names import_csv_names
        insert_response_names insert_conflict_names check_build_def view_data_def
        dump_database_def dump_tables_db)

lemma run_all_names: "schema_names (db s) \<Longrightarrow> schema_names (db (run_all acts s))"
  by (induction acts arbitrary: s) (simp_all add: run_all_Nil run_all_Cons run_names)

lemma schema_names_sample: "schema_names sample_db"
  by (simp add: schema_names_def sample_db_def schema_defs)

lemma plain_dumps_sample: "plain_dumps sample_reviews"
  by (simp add: plain_dumps_def sample_reviews_def data_directory_def)

text \<open>
  C5: no action updates or deletes a row. Whatever the actions run on a database whose
  tables are tables of the schema (the cells of the notebook, with dumps to directories
  without a quote in their name, and the inserts of the application as modelled, for any
  reviewer and document and in any order), a table that exists keeps its columns and its
  rows, in order, and at most gains rows after them.
\<close>

theorem rows_only_appended:
  assumes "map_of (db s) t = Some tb" and "schema_names (db s)" and "plain_dumps acts"
  shows "\<exists>more. map_of (db (run_all acts s)) t = Some (tb\<lparr>rows := rows tb @ more\<rparr>)"
  using run_all_grows[of s acts] assms(1) unfolding grows_def by blast

theorem rows_only_appended_witness:
  "map_of (db sample_state) ''tbl_response''
     = Some \<lparr>columns = tbl_columns tbl_response, constraints = [], rows = [sample_response]\<rparr>
   \<and> schema_names (db sample_state)
   \<and> plain_dumps (Import sample_sources sample_reviewers # sample_reviews)
   \<and> (\<exists>more. map_of (db (run_all (Import sample_sources sample_reviewers # sample_reviews)
                             sample_state)) ''tbl_response''
        = Some \<lparr>columns = tbl_columns tbl_response, constraints = [], rows = [sample_response] @ more\<rparr>)"
proof -
  have h1: "map_of (db sample_state) ''tbl_response''
     = Some \<lparr>columns = tbl_columns tbl_response, constraints = [], rows = [sample_response]\<rparr>"
    by (simp add: sample_state_def sample_db_def)
  have h2: "schema_names (db sample_state)"
    using schema_names_sample by (simp add: sample_state_def)
  have h3: "plain_dumps (Import sample_sources sample_reviewers # sample_reviews)"
    using plain_dumps_sample by (simp add: plain_dumps_def)
  from rows_only_appended[OF h1 h2 h3] h1 h2 h3 show ?thesis by simp
qed

text \<open>
  C3: once \<^verbatim>\<open>tbl_log\<close> holds a row for a reviewer and a document, no run of actions
  (on a database whose tables are tables of the schema, with dumps to directories without
  a quote in their name) leads to a state in which the fetch of the application, as
  modelled from the spec, returns that document for that reviewer.
\<close>

theorem conflict_never_shown_again:
  assumes "conflict_logged (db s) rid did" and "schema_names (db s)" and "plain_dumps acts"
  shows "fetch_next_document cfg (db (run_all acts s)) rid \<noteq> Some did"
proof
  assume "fetch_next_document cfg (db (run_all acts s)) rid = Some did"
  then have "\<not> conflict_logged (db (run_all acts s)) rid did"
    by (rule fetch_next_document_Some)
  moreover have "conflict_logged (db (run_all acts s)) rid did"
    using run_all_grows assms(1) by (rule conflict_logged_grows)
  ultimately show False by contradiction
qed

lemma sample_conflict_logged:
  "conflict_logged
     (db (run_all (sample_setup @ [Declare_conflict 1 7 ''coauthor'']) fresh)) 1 7"
  by code_simp

lemma sample_conflict_names:
  "schema_names (db (run_all (sample_setup @ [Declare_conflict 1 7 ''coauthor'']) fresh))"
  by code_simp

theorem conflict_never_shown_again_witness:
  "conflict_logged
     (db (run_all (sample_setup @ [Declare_conflict 1 7 ''coauthor'']) fresh)) 1 7
   \<and> schema_names (db (run_all (sample_setup @ [Declare_conflict 1 7 ''coauthor'']) fresh))
   \<and> plain_dumps sample_reviews
   \<and> fetch_next_document sample_settings
       (db (run_all sample_reviews
              (run_all (sample_setup @ [Declare_conflict 1 7 ''coauthor'']) fresh))) 1
       \<noteq> Some 7"
  using conflict_never_shown_again[OF sample_conflict_logged sample_conflict_names plain_dumps_sample,
          of sample_settings]
    sample_conflict_logged sample_conflict_names plain_dumps_sample
  by simp

lemma sound_empty: "sound cfg []"
  by (simp add: sound_def count_by_document_def count_by_reviewer_def pair_rows_def rows_of_def)

lemma build_database_built:
  assumes "built_by_schema d"
  shows "build_database d = (d, Some Catalog_error)"
  using assms
  by (rule built_by_schema_shape) (simp add: build_database_def tbl_schema_def create_table_def tbl_log_def)

lemma insert_select_other:
  assumes "insert_select d t rel = Inr d'" "u \<noteq> t"
  shows "rows_of d' u = rows_of d u" "columns_of d' u = columns_of d u"
proof -
  from assms(1) obtain tb rs where "d' = AList.update t (tb\<lparr>rows := rows tb @ rs\<rparr>) d"
    by (rule insert_select_result)
  with assms(2) show "rows_of d' u = rows_of d u" "columns_of d' u = columns_of d u"
    by (simp_all add: rows_of_def columns_of_def update_conv')
qed

lemma insert_select_same:
  assumes "insert_select d t rel = Inr d'"
  obtains rs where "cast_rows (map snd (columns_of d t)) (rel_rows rel) = Some rs"
    "rows_of d' t = rows_of d t @ rs" "columns_of d' t = columns_of d t"
proof -
  from assms obtain tb rs where "map_of d t = Some tb"
    "cast_rows (map snd (columns tb)) (rel_rows rel) = Some rs"
    "d' = AList.update t (tb\<lparr>rows := rows tb @ rs\<rparr>) d"
    by (rule insert_select_result)
  then show thesis using that[of rs]
    by (simp add: rows_of_def columns_of_def update_conv')
qed

lemma sound_other:
  assumes "sound cfg d" "insert_select d t rel = Inr d'" "t \<noteq> ''tbl_response''" "t \<noteq> ''tbl_log''"
  shows "sound cfg d'"
proof -
  have "d = [] \<Longrightarrow> False" using assms(2) by (simp add: insert_select_def)
  then have "built_by_schema d" using assms(1) by (auto simp: sound_def)
  then have "built_by_schema d'" using assms(2) by (rule insert_select_built)
  moreover have "rows_of d' ''tbl_response'' = rows_of d ''tbl_response''"
     "columns_of d' ''tbl_response'' = columns_of d ''tbl_response''"
     "rows_of d' ''tbl_log'' = rows_of d ''tbl_log''"
     "columns_of d' ''tbl_log'' = columns_of d ''tbl_log''"
    using insert_select_other[OF assms(2)] assms(3,4) by metis+
  ultimately show ?thesis using assms(1)
    by (simp add: sound_def count_by_document_def count_by_reviewer_def pair_rows_def)
qed

lemma columns_of_built:
  assumes "built_by_schema d"
  shows "columns_of d ''tbl_response'' = tbl_columns tbl_response"
    "columns_of d ''tbl_log'' = tbl_columns tbl_log"
  using assms by (rule built_by_schema_shape, simp add: columns_of_def)+

lemma cast_response_row:
  assumes "cast_rows (map snd (tbl_columns tbl_response))
     [[IntV rid, StrV name, IntV did, IntV a, IntV sc, IntV b, StrV comments, IntV ord]] = Some rs"
  shows "rs = [[IntV rid, StrV name, IntV did, IntV a, IntV sc, IntV b, StrV comments, IntV ord]]"
  using assms
  by (auto simp: cast_rows_def cast_row_def tbl_response_def ranged_def split: if_splits option.splits)

lemma cast_log_row:
  assumes "cast_rows (map snd (tbl_columns tbl_log)) [[IntV rid, IntV did, StrV conflict]] = Some rs"
  shows "rs = [[IntV rid, IntV did, StrV conflict]]"
  using assms
  by (auto simp: cast_rows_def cast_row_def tbl_log_def ranged_def split: if_splits option.splits)

lemma sound_response:
  assumes "sound cfg d" and "fetch_next_document cfg d rid = Some did"
    and "insert_values d ''tbl_response''
           [IntV rid, StrV name, IntV did, IntV a, IntV sc, IntV b, StrV comments, IntV ord] = Inr d'"
  shows "sound cfg d'"
proof -
  let ?row = "[IntV rid, StrV name, IntV did, IntV a, IntV sc, IntV b, StrV comments, IntV ord]"
  have ins: "insert_select d ''tbl_response''
      \<lparr>rel_columns = map (\<lambda>c. ([], cell_type c)) ?row, rel_rows = [?row]\<rparr> = Inr d'"
    using assms(3) by (simp add: insert_values_def)
  have "d = [] \<Longrightarrow> False" using ins by (simp add: insert_select_def)
  then have b: "built_by_schema d" using assms(1) by (auto simp: sound_def)
  then have b': "built_by_schema d'" using ins by (rule insert_select_built)
  from ins obtain rs where rs: "cast_rows (map snd (columns_of d ''tbl_response'')) [?row] = Some rs"
    and r: "rows_of d' ''tbl_response'' = rows_of d ''tbl_response'' @ rs"
    and c: "columns_of d' ''tbl_response'' = columns_of d ''tbl_response''"
    by (rule insert_select_same) simp
  have rs': "rs = [?row]" using rs columns_of_built(1)[OF b] by (simp add: cast_response_row)
  have f: "field (tbl_columns tbl_response) ?row ''document_id'' = IntV did"
      "field (tbl_columns tbl_response) ?row ''reviewer_id'' = IntV rid"
    by (simp_all add: field_def tbl_response_def)
  have cd: "count_by_document d' x = count_by_document d x + (if x = did then 1 else 0)" for x
    using f by (simp add: count_by_document_def r c rs' columns_of_built(1)[OF b])
  have cr: "count_by_reviewer d' x = count_by_reviewer d x + (if x = rid then 1 else 0)" for x
    using f by (simp add: count_by_reviewer_def r c rs' columns_of_built(1)[OF b])
  have lg: "pair_rows d' ''tbl_log'' x y = pair_rows d ''tbl_log'' x y" for x y
    using insert_select_other[OF ins, of "''tbl_log''"] by (simp add: pair_rows_def)
  from assms(2) have lt: "count_by_document d did < max_reviews_per_document cfg"
    "count_by_reviewer d rid < max_reviews_per_reviewer cfg"
    by (rule fetch_next_document_Some)+
  show ?thesis unfolding sound_def
  proof (intro conjI allI)
    show "d' = [] \<or> built_by_schema d'" using b' ..
    show "count_by_document d' x \<le> max_reviews_per_document cfg" for x
      using assms(1) lt(1) by (cases "x = did") (simp_all add: cd sound_def)
    show "count_by_reviewer d' x \<le> max_reviews_per_reviewer cfg" for x
      using assms(1) lt(2) by (cases "x = rid") (simp_all add: cr sound_def)
    show "length (pair_rows d' ''tbl_log'' x y) \<le> 1" for x y
      using assms(1) by (simp add: lg sound_def)
  qed
qed

lemma sound_conflict:
  assumes "sound cfg d" and "fetch_next_document cfg d rid = Some did"
    and "insert_values d ''tbl_log'' [IntV rid, IntV did, StrV conflict] = Inr d'"
  shows "sound cfg d'"
proof -
  let ?row = "[IntV rid, IntV did, StrV conflict]"
  have ins: "insert_select d ''tbl_log''
      \<lparr>rel_columns = map (\<lambda>c. ([], cell_type c)) ?row, rel_rows = [?row]\<rparr> = Inr d'"
    using assms(3) by (simp add: insert_values_def)
  have "d = [] \<Longrightarrow> False" using ins by (simp add: insert_select_def)
  then have b: "built_by_schema d" using assms(1) by (auto simp: sound_def)
  then have b': "built_by_schema d'" using ins by (rule insert_select_built)
  from ins obtain rs where rs: "cast_rows (map snd (columns_of d ''tbl_log'')) [?row] = Some rs"
    and r: "rows_of d' ''tbl_log'' = rows_of d ''tbl_log'' @ rs"
    and c: "columns_of d' ''tbl_log'' = columns_of d ''tbl_log''"
    by (rule insert_select_same) simp
  have rs': "rs = [?row]" using rs columns_of_built(2)[OF b] by (simp add: cast_log_row)
  have f: "field (tbl_columns tbl_log) ?row ''document_id'' = IntV did"
      "field (tbl_columns tbl_log) ?row ''reviewer_id'' = IntV rid"
    by (simp_all add: field_def tbl_log_def)
  have pr: "pair_rows d' ''tbl_log'' x y =
      pair_rows d ''tbl_log'' x y @ (if x = rid \<and> y = did then [?row] else [])" for x y
    using f by (simp add: pair_rows_def r c rs' columns_of_built(2)[OF b])
  have resp: "rows_of d' ''tbl_response'' = rows_of d ''tbl_response''"
     "columns_of d' ''tbl_response'' = columns_of d ''tbl_response''"
    using insert_select_other[OF ins, of "''tbl_response''"] by simp_all
  from assms(2) have "\<not> conflict_logged d rid did" by (rule fetch_next_document_Some)
  then have none: "pair_rows d ''tbl_log'' rid did = []" by (simp add: conflict_logged_def)
  show ?thesis unfolding sound_def
  proof (intro conjI allI)
    show "d' = [] \<or> built_by_schema d'" using b' ..
    show "count_by_document d' x \<le> max_reviews_per_document cfg" for x
      using assms(1) by (simp add: count_by_document_def resp sound_def)
    show "count_by_reviewer d' x \<le> max_reviews_per_reviewer cfg" for x
      using assms(1) by (simp add: count_by_reviewer_def resp sound_def)
    show "length (pair_rows d' ''tbl_log'' x y) \<le> 1" for x y
      using assms(1) none by (cases "x = rid \<and> y = did") (auto simp add: pr sound_def)
  qed
qed

lemma sound_build: "sound cfg d \<Longrightarrow> sound cfg (fst (build_database d))"
proof -
  assume s: "sound cfg d"
  then consider "d = []" | "built_by_schema d" by (auto simp: sound_def)
  then show ?thesis
  proof cases
    case 1
    have "built_by_schema (fst (build_database []))" by (rule built_by_schema_build)
    then show ?thesis unfolding 1
      by (simp add: sound_def) (simp add: build_fresh count_by_document_def count_by_reviewer_def pair_rows_def rows_of_def)
  next
    case 2
    then show ?thesis using s by (simp add: build_database_built)
  qed
qed

lemma sound_import: "sound cfg d \<Longrightarrow> sound cfg (fst (import_csv df_source df_reviewer d))"
  by (auto simp: import_csv_def split: sum.splits intro: sound_other)

lemma sound_insert_response:
  assumes "sound cfg d" and "fetch_next_document cfg d rid = Some did"
  shows "sound cfg (fst (insert_response rid name did a sc b comments ord d))"
proof (cases "insert_values d ''tbl_response''
         [IntV rid, StrV name, IntV did, IntV a, IntV sc, IntV b, StrV comments, IntV ord]")
  case (Inl e)
  with assms(1) show ?thesis by (simp add: insert_response_def)
next
  case (Inr d')
  with assms have "sound cfg d'" by (rule sound_response)
  with Inr show ?thesis by (simp add: insert_response_def)
qed

lemma sound_insert_conflict:
  assumes "sound cfg d" and "fetch_next_document cfg d rid = Some did"
  shows "sound cfg (fst (insert_conflict rid did conflict d))"
proof (cases "insert_values d ''tbl_log'' [IntV rid, IntV did, StrV conflict]")
  case (Inl e)
  with assms(1) show ?thesis by (simp add: insert_conflict_def)
next
  case (Inr d')
  with assms have "sound cfg d'" by (rule sound_conflict)
  with Inr show ?thesis by (simp add: insert_conflict_def)
qed

lemma sound_run:
  "sound cfg (db s) \<Longrightarrow> fetched_action cfg (db s) a \<Longrightarrow> sound cfg (db (fst (run a s)))"
  by (cases a)
     (simp_all add: on_db_db sound_build sound_import sound_insert_response sound_insert_conflict
        check_build_def view_data_def dump_database_def dump_tables_db)

lemma sound_run_all:
  "sound cfg (db s) \<Longrightarrow> fetched cfg acts s \<Longrightarrow> sound cfg (db (run_all acts s))"
  by (induction acts arbitrary: s) (simp_all add: run_all_Nil run_all_Cons sound_run)

lemma sound_fresh: "fetched cfg acts fresh \<Longrightarrow> sound cfg (db (run_all acts fresh))"
  by (rule sound_run_all) (simp_all add: fresh_def sound_empty)

lemma sample_fetched: "fetched sample_settings (sample_setup @ sample_reviews) fresh"
  by code_simp

lemma sample_plain: "plain_dumps (sample_setup @ sample_reviews)"
  using plain_dumps_sample by (simp add: plain_dumps_def sample_setup_def)

text \<open>
  C2, as amended: the caps are checked when a document is fetched, not when a response is
  inserted. In every state reached from a fresh database by the cells of the notebook and
  by reviewer actions each made for the document that the fetch of the application, as
  modelled from the spec, returns in the state the action writes to, the responses for a
  document are at most \<^verbatim>\<open>MAX_REVIEWS_PER_DOCUMENT\<close> and the responses of a reviewer
  at most \<^verbatim>\<open>MAX_REVIEWS_PER_REVIEWER\<close>. The claim as stated, for every reachable
  state and every operation, fails on \<open>interleaved_reviews\<close>: two sessions are both shown
  document 7 before either writes, both inserts are accepted, and the document has two
  responses under a cap of one.
\<close>

theorem review_caps_kept:
  assumes "fetched cfg acts fresh" and "plain_dumps acts"
  shows "count_by_document (db (run_all acts fresh)) did \<le> max_reviews_per_document cfg
       \<and> count_by_reviewer (db (run_all acts fresh)) rid \<le> max_reviews_per_reviewer cfg"
  using sound_fresh[OF assms(1)] by (simp add: sound_def)

lemma sample_counts:
  "count_by_document (db (run_all (sample_setup @ sample_reviews) fresh)) 7 = 2"
  "count_by_reviewer (db (run_all (sample_setup @ sample_reviews) fresh)) 2 = 2"
  by code_simp+

theorem review_caps_kept_witness:
  "fetched sample_settings (sample_setup @ sample_reviews) fresh
   \<and> plain_dumps (sample_setup @ sample_reviews)
   \<and> count_by_document (db (run_all (sample_setup @ sample_reviews) fresh)) 7
     \<le> max_reviews_per_document sample_settings
   \<and> count_by_reviewer (db (run_all (sample_setup @ sample_reviews) fresh)) 2
     \<le> max_reviews_per_reviewer sample_settings
   \<and> count_by_document (db (run_all (sample_setup @ sample_reviews) fresh)) 7 = 2
   \<and> count_by_reviewer (db (run_all (sample_setup @ sample_reviews) fresh)) 2 = 2"
  using review_caps_kept[OF sample_fetched sample_plain, of 7 2] sample_counts
    sample_fetched sample_plain
  by simp

lemma interleaved_fetches:
  "fetch_next_document tight_settings (db (run_all sample_setup fresh)) 1 = Some 7"
  "fetch_next_document tight_settings (db (run_all sample_setup fresh)) 2 = Some 7"
  by code_simp+

lemma interleaved_accepted:
  "snd (run (Respond 1 ''Ann'' 7 3 4 5 ''fine'' 1) (run_all sample_setup fresh)) = None"
  "snd (run (Respond 2 ''Bob'' 7 2 2 3 ''weak'' 1)
         (run_all (sample_setup @ [Respond 1 ''Ann'' 7 3 4 5 ''fine'' 1]) fresh)) = None"
  by code_simp+

lemma interleaved_count:
  "count_by_document (db (run_all (sample_setup @ interleaved_reviews) fresh)) 7 = 2"
  by code_simp

theorem review_caps_counterexample:
  "fetch_next_document tight_settings (db (run_all sample_setup fresh)) 1 = Some 7
   \<and> fetch_next_document tight_settings (db (run_all sample_setup fresh)) 2 = Some 7
   \<and> snd (run (Respond 1 ''Ann'' 7 3 4 5 ''fine'' 1) (run_all sample_setup fresh)) = None
   \<and> snd (run (Respond 2 ''Bob'' 7 2 2 3 ''weak'' 1)
            (run_all (sample_setup @ [Respond 1 ''Ann'' 7 3 4 5 ''fine'' 1]) fresh)) = None
   \<and> count_by_document (db (run_all (sample_setup @ interleaved_reviews) fresh)) 7 = 2
   \<and> \<not> count_by_document (db (run_all (sample_setup @ interleaved_reviews) fresh)) 7
         \<le> max_reviews_per_document tight_settings"
proof -
  have "\<not> count_by_document (db (run_all (sample_setup @ interleaved_reviews) fresh)) 7
         \<le> max_reviews_per_document tight_settings"
    unfolding interleaved_count by (simp add: tight_settings_def)
  with interleaved_fetches interleaved_accepted interleaved_count show ?thesis by blast
qed

text \<open>
  C4, as amended: in every state reached from a fresh database by the cells of the
  notebook and by reviewer actions each made for the document that the fetch of the
  application, as modelled from the spec, returns in the state the action writes to,
  \<^verbatim>\<open>tbl_log\<close> holds at most one row for a reviewer and a document. The claim as
  stated, for every reachable state, fails on \<open>repeated_conflict\<close>: the conflict with the
  document shown is submitted twice, no constraint rejects the second insert, and the log
  holds two rows for the pair.
\<close>

theorem one_conflict_row_per_pair:
  assumes "fetched cfg acts fresh" and "plain_dumps acts"
  shows "length (pair_rows (db (run_all acts fresh)) ''tbl_log'' rid did) \<le> 1"
  using sound_fresh[OF assms(1)] by (simp add: sound_def)

lemma sample_log_fetched:
  "fetched sample_settings
     (sample_setup @ [Declare_conflict 1 7 ''coauthor'', Declare_conflict 1 8 ''coauthor'']) fresh"
  by code_simp

lemma sample_log:
  "rows_of (db (run_all
      (sample_setup @ [Declare_conflict 1 7 ''coauthor'', Declare_conflict 1 8 ''coauthor'']) fresh))
      ''tbl_log''
   = [[IntV 1, IntV 7, StrV ''coauthor''], [IntV 1, IntV 8, StrV ''coauthor'']]"
  by code_simp

theorem one_conflict_row_per_pair_witness:
  "fetched sample_settings
     (sample_setup @ [Declare_conflict 1 7 ''coauthor'', Declare_conflict 1 8 ''coauthor'']) fresh
   \<and> plain_dumps (sample_setup @ [Declare_conflict 1 7 ''coauthor'', Declare_conflict 1 8 ''coauthor''])
   \<and> length (pair_rows (db (run_all
        (sample_setup @ [Declare_conflict 1 7 ''coauthor'', Declare_conflict 1 8 ''coauthor'']) fresh))
        ''tbl_log'' 1 7) \<le> 1
   \<and> rows_of (db (run_all
        (sample_setup @ [Declare_conflict 1 7 ''coauthor'', Declare_conflict 1 8 ''coauthor'']) fresh))
        ''tbl_log''
     = [[IntV 1, IntV 7, StrV ''coauthor''], [IntV 1, IntV 8, StrV ''coauthor'']]"
proof -
  have p: "plain_dumps (sample_setup @ [Declare_conflict 1 7 ''coauthor'', Declare_conflict 1 8 ''coauthor''])"
    by (simp add: plain_dumps_def sample_setup_def)
  from one_conflict_row_per_pair[OF sample_log_fetched p, of 1 7] sample_log_fetched p sample_log
  show ?thesis by simp
qed

lemma repeated_fetch:
  "fetch_next_document sample_settings (db (run_all sample_setup fresh)) 1 = Some 7"
  by code_simp

lemma repeated_accepted:
  "snd (run (Declare_conflict 1 7 ''coauthor'')
         (run_all (sample_setup @ [Declare_conflict 1 7 ''coauthor'']) fresh)) = None"
  by code_simp

lemma repeated_rows:
  "pair_rows (db (run_all (sample_setup @ repeated_conflict) fresh)) ''tbl_log'' 1 7
     = [[IntV 1, IntV 7, StrV ''coauthor''], [IntV 1, IntV 7, StrV ''coauthor'']]"
  by code_simp

theorem one_conflict_row_counterexample:
  "fetch_next_document sample_settings (db (run_all sample_setup fresh)) 1 = Some 7
   \<and> snd (run (Declare_conflict 1 7 ''coauthor'')
            (run_all (sample_setup @ [Declare_conflict 1 7 ''coauthor'']) fresh)) = None
   \<and> pair_rows (db (run_all (sample_setup @ repeated_conflict) fresh)) ''tbl_log'' 1 7
       = [[IntV 1, IntV 7, StrV ''coauthor''], [IntV 1, IntV 7, StrV ''coauthor'']]
   \<and> \<not> length (pair_rows (db (run_all (sample_setup @ repeated_conflict) fresh)) ''tbl_log'' 1 7) \<le> 1"
proof -
  have "\<not> length (pair_rows (db (run_all (sample_setup @ repeated_conflict) fresh)) ''tbl_log'' 1 7) \<le> 1"
    unfolding repeated_rows by simp
  with repeated_fetch repeated_accepted repeated_rows show ?thesis by blast
qed

end
